theory Spec2Isabelle
  imports Main "HOL-Library.Multiset"
begin

section \<open>Data model\<close>

text \<open>
  The view set of \<^verbatim>\<open>posts/views.py\<close> works on three tables: posts, replies and tags.
  The model classes live in \<^verbatim>\<open>posts/models.py\<close> and \<^verbatim>\<open>tags/models.py\<close>; the view
  set reads the columns \<^verbatim>\<open>pinned\<close>, \<^verbatim>\<open>created_time\<close>, \<^verbatim>\<open>tags\<close>, \<^verbatim>\<open>author\<close> of a post,
  \<^verbatim>\<open>submit_date\<close> of a reply (through the relation \<^verbatim>\<open>replies\<close>) and \<^verbatim>\<open>name\<close> of a tag.
  A time stamp is a number of microseconds, the resolution of \<^verbatim>\<open>datetime\<close>.
\<close>

type_synonym time = int
type_synonym user = nat

text \<open>Modelled from the spec: the Tag model (\<^verbatim>\<open>tags/models.py\<close>): an identity and a name.\<close>

record tag =
  tag_id :: nat
  tag_name :: string

text \<open>
  Modelled from the spec: the Post model (\<^verbatim>\<open>posts/models.py\<close>): identity, title and
  body, the pin flag, the creation time, the author, and the many-to-many relation to
  tags, held as the keys of the associated tags.
\<close>

record post =
  post_id :: nat
  title :: string
  body :: string
  pinned :: bool
  created_time :: time
  author :: user
  tags :: "nat list"

text \<open>
  Modelled from the spec: a reply belongs to one post (the foreign key behind the
  relation \<^verbatim>\<open>replies\<close>) and has a \<^verbatim>\<open>submit_date\<close>.
\<close>

record reply =
  reply_post :: nat
  submit_date :: time

record store =
  post_table :: "post list"
  reply_table :: "reply list"
  tag_table :: "tag list"

section \<open>The query set operations the view set uses\<close>

text \<open>
  \<^verbatim>\<open>annotate(latest_reply_time=Max('replies__submit_date'))\<close> and
  \<^verbatim>\<open>annotate(num_replies=Count('replies'))\<close> attach to every post an aggregate over the
  replies joined to it. \<^verbatim>\<open>Max\<close> over no rows is NULL, written \<open>None\<close>.
\<close>

definition replies :: "store \<Rightarrow> post \<Rightarrow> reply list" where
  "replies s p = filter (\<lambda>r. reply_post r = post_id p) (reply_table s)"

definition Max_submit_date :: "reply list \<Rightarrow> time option" where
  "Max_submit_date rs =
     (case rs of
        [] \<Rightarrow> None
      | r # rs' \<Rightarrow> Some (fold max (map submit_date rs') (submit_date r)))"

definition latest_reply_time :: "store \<Rightarrow> post \<Rightarrow> time option" where
  "latest_reply_time s p = Max_submit_date (replies s p)"

definition num_replies :: "store \<Rightarrow> post \<Rightarrow> nat" where
  "num_replies s p = length (replies s p)"

text \<open>
  \<^verbatim>\<open>order_by('-a', '-b', ...)\<close> is SQL's \<^verbatim>\<open>ORDER BY a DESC, b DESC, ...\<close>: rows are
  compared column by column, and on a descending column the row with the greater value
  comes first. The view set gives no \<^verbatim>\<open>nulls_first\<close> or \<^verbatim>\<open>nulls_last\<close>, so a NULL is
  placed as the database backend collates it: below every value (SQLite, MySQL) or
  above every value (PostgreSQL, Oracle). The backend is chosen in the project settings,
  which are not part of the view set; it is a parameter here.
\<close>

datatype null_collation = NullsSmallest | NullsLargest

datatype cmp = Before | Tie | After

fun sql_desc :: "null_collation \<Rightarrow> ('k::linorder) option \<Rightarrow> 'k option \<Rightarrow> cmp" where
  "sql_desc nc (Some a) (Some b) = (if b < a then Before else if a = b then Tie else After)"
| "sql_desc nc None None = Tie"
| "sql_desc NullsSmallest None (Some b) = After"
| "sql_desc NullsSmallest (Some a) None = Before"
| "sql_desc NullsLargest None (Some b) = Before"
| "sql_desc NullsLargest (Some a) None = After"

definition desc :: "null_collation \<Rightarrow> ('a \<Rightarrow> ('k::linorder) option) \<Rightarrow> 'a \<Rightarrow> 'a \<Rightarrow> cmp" where
  "desc nc key a b = sql_desc nc (key a) (key b)"

fun order_cmp :: "('a \<Rightarrow> 'a \<Rightarrow> cmp) list \<Rightarrow> 'a \<Rightarrow> 'a \<Rightarrow> cmp" where
  "order_cmp [] a b = Tie"
| "order_cmp (c # cs) a b = (case c a b of Tie \<Rightarrow> order_cmp cs a b | r \<Rightarrow> r)"

text \<open>
  SQL leaves the order of rows that tie on every column open; the model keeps them in
  table order (a stable insertion sort). No theorem below depends on that choice.
\<close>

fun insert_row :: "('a \<Rightarrow> 'a \<Rightarrow> cmp) \<Rightarrow> 'a \<Rightarrow> 'a list \<Rightarrow> 'a list" where
  "insert_row c x [] = [x]"
| "insert_row c x (y # ys) = (if c x y = After then y # insert_row c x ys else x # y # ys)"

definition order_by :: "('a \<Rightarrow> 'a \<Rightarrow> cmp) list \<Rightarrow> 'a list \<Rightarrow> 'a list" where
  "order_by cs xs = foldr (insert_row (order_cmp cs)) xs []"

text \<open>
  A comparison of a nullable column with a value in \<^verbatim>\<open>filter(col__gt=v)\<close> or
  \<^verbatim>\<open>filter(col__lt=v)\<close> is not true on NULL, so the row is dropped.
\<close>

definition sql_gt :: "('k::linorder) option \<Rightarrow> 'k \<Rightarrow> bool" where
  "sql_gt col v = (case col of None \<Rightarrow> False | Some x \<Rightarrow> v < x)"

definition sql_lt :: "('k::linorder) option \<Rightarrow> 'k \<Rightarrow> bool" where
  "sql_lt col v = (case col of None \<Rightarrow> False | Some x \<Rightarrow> x < v)"

definition timedelta_days :: "int \<Rightarrow> time" where
  "timedelta_days d = d * 86400000000"

section \<open>Errors\<close>

text \<open>
  The three messages of the tag checks, all under the key for the tags field:
  \<open>SelectAtLeastOneTag\<close> is the message of lines 74 and 94 (in English: please select at
  least one tag), \<open>AtMostThreeTags\<close> the one of lines 76 and 96 (at most three tags can
  be selected), \<open>TagDoesNotExist\<close> the one of lines 82 and 122 (the tag does not exist).
  None of the three dictionaries holds anything but the fixed message.
  \<open>SerializerErrors\<close> stands for the field errors of \<^verbatim>\<open>is_valid(raise_exception=True)\<close>,
  \<open>FilterErrors\<close> for the field errors of the form of the filter backend.
  \<open>TypeError\<close> is the Python exception of that name; the view set does not catch it,
  and the request ends in a server error.
\<close>

datatype detail =
  SelectAtLeastOneTag | AtMostThreeTags | TagDoesNotExist | SerializerErrors | FilterErrors

datatype error = ValidationError detail | Http404 | PermissionDenied | TypeError

text \<open>The names the specification gives to these errors.\<close>

definition EmptyTagSelection :: error where
  "EmptyTagSelection = ValidationError SelectAtLeastOneTag"

definition TooManyTags :: error where
  "TooManyTags = ValidationError AtMostThreeTags"

definition UnknownTag :: error where
  "UnknownTag = ValidationError TagDoesNotExist"


section \<open>Listing\<close>

text \<open>
  \<^verbatim>\<open>PostViewSet.queryset\<close> (lines 34 to 36): every post of \<^verbatim>\<open>Post.objects\<close>, annotated
  with the latest reply time and ordered by \<^verbatim>\<open>'-pinned', '-latest_reply_time',
  '-created_time'\<close>. The columns \<^verbatim>\<open>pinned\<close> and \<^verbatim>\<open>created_time\<close> are never NULL.
\<close>

definition Post_objects :: "store \<Rightarrow> post list" where
  "Post_objects s = post_table s"

definition listing_order :: "null_collation \<Rightarrow> store \<Rightarrow> (post \<Rightarrow> post \<Rightarrow> cmp) list" where
  "listing_order nc s =
     [desc nc (\<lambda>p. Some (pinned p)),
      desc nc (latest_reply_time s),
      desc nc (\<lambda>p. Some (created_time p))]"

definition queryset :: "null_collation \<Rightarrow> store \<Rightarrow> post list" where
  "queryset nc s = order_by (listing_order nc s) (Post_objects s)"

text \<open>
  Modelled from the library: \<^verbatim>\<open>filter_backends = (DjangoFilterBackend,)\<close> with
  \<^verbatim>\<open>filter_fields = ('tags',)\<close> (lines 43 to 45) hands the filtering of the listing to
  the package django-filter, which is not code of this repository. What follows is the
  documented behaviour of that package for a many-to-many field, for which it builds a
  \<^verbatim>\<open>ModelMultipleChoiceFilter\<close> over all tags.

  The values of the query parameter \<^verbatim>\<open>tags\<close> are read as primary keys of tags, not as
  names. \<open>to_python\<close> is the conversion of a request value to a key (that of the key
  field of the tag model), \<open>None\<close> when the value denotes no key; it is a parameter.
  A value is a valid choice when it denotes the key of a tag of the table. The form of
  the filter is valid when every value is a valid choice, and then its cleaned value is
  the tags with these keys.
\<close>

definition valid_choice :: "(string \<Rightarrow> nat option) \<Rightarrow> store \<Rightarrow> string \<Rightarrow> bool" where
  "valid_choice to_python s v =
     (case to_python v of
        None \<Rightarrow> False
      | Some k \<Rightarrow> k \<in> set (map tag_id (tag_table s)))"

definition chosen :: "(string \<Rightarrow> nat option) \<Rightarrow> string list \<Rightarrow> tag \<Rightarrow> bool" where
  "chosen to_python vs t = (\<exists>v \<in> set vs. to_python v = Some (tag_id t))"

definition clean_tags :: "(string \<Rightarrow> nat option) \<Rightarrow> store \<Rightarrow> string list \<Rightarrow> tag list option" where
  "clean_tags to_python s vs =
     (if list_all (valid_choice to_python s) vs
      then Some (filter (chosen to_python vs) (tag_table s))
      else None)"

text \<open>
  The filter itself: no tag chosen leaves the query set as it is; otherwise a post is
  kept when it is associated with one of the tags (the disjunction of \<^verbatim>\<open>tags=t\<close> over
  the chosen tags, then \<^verbatim>\<open>distinct()\<close>, so each post once).
\<close>

definition has_any_tag :: "tag list \<Rightarrow> post \<Rightarrow> bool" where
  "has_any_tag ts p = (\<exists>t \<in> set ts. tag_id t \<in> set (tags p))"

definition tags_filter :: "tag list \<Rightarrow> post list \<Rightarrow> post list" where
  "tags_filter ts qs = (if ts = [] then qs else filter (has_any_tag ts) qs)"

text \<open>
  What the backend does when the form is not valid depends on the version and the
  settings of the package: it refuses the request with the errors of the form, or it
  answers with the empty query set. The choice is a parameter.
\<close>

datatype strictness = RaiseValidationError | ReturnNoResults

definition filter_queryset :: "strictness \<Rightarrow> (string \<Rightarrow> nat option) \<Rightarrow> store \<Rightarrow> string list
    \<Rightarrow> post list \<Rightarrow> error + post list" where
  "filter_queryset strict to_python s vs qs =
     (case clean_tags to_python s vs of
        None \<Rightarrow>
          (case strict of
             RaiseValidationError \<Rightarrow> Inl (ValidationError FilterErrors)
           | ReturnNoResults \<Rightarrow> Inr [])
      | Some ts \<Rightarrow> Inr (tags_filter ts qs))"

text \<open>
  The \<^verbatim>\<open>list\<close> action of the view set, before pagination cuts it into pages of 20;
  \<open>vs\<close> is the values of the query parameter \<^verbatim>\<open>tags\<close>, empty when the request has none.
\<close>

definition list_posts :: "null_collation \<Rightarrow> strictness \<Rightarrow> (string \<Rightarrow> nat option) \<Rightarrow> store
    \<Rightarrow> string list \<Rightarrow> error + post list" where
  "list_posts nc strict to_python s vs = filter_queryset strict to_python s vs (queryset nc s)"

section \<open>Popular posts\<close>

text \<open>
  Modelled from the spec: the manager \<^verbatim>\<open>Post.public\<close> (\<^verbatim>\<open>posts/models.py\<close>), the posts
  that match the publicly visible predicate. The predicate is a parameter.
\<close>

definition Post_public :: "(post \<Rightarrow> bool) \<Rightarrow> store \<Rightarrow> post list" where
  "Post_public public s = filter public (post_table s)"

text \<open>
  \<^verbatim>\<open>PostViewSet.popular\<close> (lines 128 to 141): the posts of \<^verbatim>\<open>Post.public\<close>, annotated
  with the number of replies and the latest reply time, filtered by
  \<^verbatim>\<open>num_replies__gt=0\<close>, \<^verbatim>\<open>latest_reply_time__gt=now() - timedelta(days=2)\<close> and
  \<^verbatim>\<open>latest_reply_time__lt=now()\<close>, ordered by \<^verbatim>\<open>'-num_replies', '-latest_reply_time'\<close>
  and cut to the first ten. The clock is read twice, first for the lower bound and then
  for the upper bound; \<open>now1\<close> and \<open>now2\<close> are the two readings.
\<close>

definition popular_filter :: "store \<Rightarrow> time \<Rightarrow> time \<Rightarrow> post \<Rightarrow> bool" where
  "popular_filter s now1 now2 p \<longleftrightarrow>
     0 < num_replies s p
     \<and> sql_gt (latest_reply_time s p) (now1 - timedelta_days 2)
     \<and> sql_lt (latest_reply_time s p) now2"

definition popular_order :: "null_collation \<Rightarrow> store \<Rightarrow> (post \<Rightarrow> post \<Rightarrow> cmp) list" where
  "popular_order nc s =
     [desc nc (\<lambda>p. Some (num_replies s p)),
      desc nc (latest_reply_time s)]"

definition popular :: "(post \<Rightarrow> bool) \<Rightarrow> null_collation \<Rightarrow> store \<Rightarrow> time \<Rightarrow> time \<Rightarrow> post list" where
  "popular public nc s now1 now2 =
     take 10
       (order_by (popular_order nc s)
          (filter (popular_filter s now1 now2) (Post_public public s)))"

section \<open>Creating and updating\<close>

text \<open>
  The value of \<^verbatim>\<open>request.data.get('tags')\<close>, when there is one. The view set never
  checks that it is a list: it applies \<^verbatim>\<open>not\<close>, \<^verbatim>\<open>len\<close> and \<^verbatim>\<open>for\<close> to whatever the
  parser of the request body delivered. \<open>Names\<close> is a JSON array, its items the names
  the lookup receives; \<open>Text\<close> is a JSON string, or the value of the field in a form
  body; \<open>Number\<close> and \<open>Flag\<close> are a JSON number and a JSON truth value; \<open>Object\<close> is a
  JSON object, given by its keys. A number that is a fraction behaves as a whole number
  with the same truth value, so whole numbers stand for all.
\<close>

datatype tags_value =
  Names "string list" | Text string | Number int | Flag bool | Object "string list"

text \<open>
  \<^verbatim>\<open>bool(v)\<close>, \<^verbatim>\<open>len(v)\<close> and the items \<^verbatim>\<open>for name in v\<close> runs through. The length of
  a string is the number of its characters and its items are its characters, each a
  string of length one; a dictionary counts and yields its keys; a number or a truth
  value has no length and no items, \<^verbatim>\<open>len\<close> and \<^verbatim>\<open>for\<close> raise \<^verbatim>\<open>TypeError\<close> on it, which
  is \<open>None\<close> here.
\<close>

fun py_bool :: "tags_value \<Rightarrow> bool" where
  "py_bool (Names ns) = (ns \<noteq> [])"
| "py_bool (Text cs) = (cs \<noteq> [])"
| "py_bool (Number n) = (n \<noteq> 0)"
| "py_bool (Flag b) = b"
| "py_bool (Object ks) = (ks \<noteq> [])"

fun py_len :: "tags_value \<Rightarrow> nat option" where
  "py_len (Names ns) = Some (length ns)"
| "py_len (Text cs) = Some (length cs)"
| "py_len (Number n) = None"
| "py_len (Flag b) = None"
| "py_len (Object ks) = Some (length ks)"

fun py_iter :: "tags_value \<Rightarrow> string list option" where
  "py_iter (Names ns) = Some ns"
| "py_iter (Text cs) = Some (map (\<lambda>c. [c]) cs)"
| "py_iter (Number n) = None"
| "py_iter (Flag b) = None"
| "py_iter (Object ks) = Some ks"

text \<open>
  The request body, as far as the view set and the serializer read it. \<open>d_tags\<close> is
  \<^verbatim>\<open>request.data.get('tags')\<close>: \<open>None\<close> when the key is missing or its value is null.
\<close>

record request_data =
  d_title :: "string option"
  d_body :: "string option"
  d_pinned :: "bool option"
  d_tags :: "tags_value option"

text \<open>
  \<^verbatim>\<open>Tag.objects.get(name=name)\<close>: the one tag with that name; it raises when there is
  none and when there are several.
\<close>

datatype orm_error = DoesNotExist | MultipleObjectsReturned

definition Tag_objects_get :: "store \<Rightarrow> string \<Rightarrow> orm_error + tag" where
  "Tag_objects_get s name =
     (case filter (\<lambda>t. tag_name t = name) (tag_table s) of
        [] \<Rightarrow> Inl DoesNotExist
      | [t] \<Rightarrow> Inr t
      | _ \<Rightarrow> Inl MultipleObjectsReturned)"

text \<open>
  The loop of lines 77 to 82 and 117 to 122: every exception of the lookup becomes the
  same validation error, raised at the first name that fails.
\<close>

fun resolve_loop :: "store \<Rightarrow> string list \<Rightarrow> tag list \<Rightarrow> error + tag list" where
  "resolve_loop s [] tgs = Inr tgs"
| "resolve_loop s (name # names) tgs =
     (case Tag_objects_get s name of
        Inr t \<Rightarrow> resolve_loop s names (tgs @ [t])
      | Inl e \<Rightarrow> Inl (ValidationError TagDoesNotExist))"

text \<open>
  Modelled from the spec: \<^verbatim>\<open>PostDetailSerializer.save\<close> (\<^verbatim>\<open>posts/serializers.py\<close>).
  On create it stores a new post with the fields of the body, the keyword arguments
  \<^verbatim>\<open>author\<close> and \<^verbatim>\<open>tags\<close>, and the creation time; on update it overwrites the fields the
  body holds, and the tags when the keyword argument is given. Tags and author are
  read-only in the serializer (doc string of \<^verbatim>\<open>perform_create\<close>), so the body alone
  changes neither. A many-to-many relation holds each tag once.
\<close>

definition fresh_id :: "post list \<Rightarrow> nat" where
  "fresh_id ps = Suc (fold max (map post_id ps) 0)"

definition save_new :: "time \<Rightarrow> user \<Rightarrow> request_data \<Rightarrow> tag list \<Rightarrow> store \<Rightarrow> post \<times> store" where
  "save_new t u d tgs s =
     (let p = \<lparr>post_id = fresh_id (post_table s),
                title = (case d_title d of Some x \<Rightarrow> x | None \<Rightarrow> []),
                body = (case d_body d of Some x \<Rightarrow> x | None \<Rightarrow> []),
                pinned = (case d_pinned d of Some b \<Rightarrow> b | None \<Rightarrow> False),
                created_time = t,
                author = u,
                tags = remdups (map tag_id tgs)\<rparr>
      in (p, s\<lparr>post_table := post_table s @ [p]\<rparr>))"

definition save_instance :: "request_data \<Rightarrow> tag list option \<Rightarrow> post \<Rightarrow> store \<Rightarrow> post \<times> store" where
  "save_instance d tgs p s =
     (let p' = p\<lparr>title := (case d_title d of Some x \<Rightarrow> x | None \<Rightarrow> title p),
                  body := (case d_body d of Some x \<Rightarrow> x | None \<Rightarrow> body p),
                  pinned := (case d_pinned d of Some b \<Rightarrow> b | None \<Rightarrow> pinned p),
                  tags := (case tgs of Some ts \<Rightarrow> remdups (map tag_id ts) | None \<Rightarrow> tags p)\<rparr>
      in (p', s\<lparr>post_table := map (\<lambda>q. if post_id q = post_id p then p' else q) (post_table s)\<rparr>))"

text \<open>
  \<^verbatim>\<open>PostViewSet.perform_create\<close> (lines 66 to 83). A result is the outcome together
  with the store after the call, so that a failure could in principle leave a changed
  store behind.
\<close>

definition perform_create :: "time \<Rightarrow> user \<Rightarrow> request_data \<Rightarrow> store \<Rightarrow> (error + post) \<times> store" where
  "perform_create t u d s =
     (case d_tags d of
        None \<Rightarrow> (Inl (ValidationError SelectAtLeastOneTag), s)
      | Some tags_data \<Rightarrow>
          if \<not> py_bool tags_data then (Inl (ValidationError SelectAtLeastOneTag), s)
          else (case py_len tags_data of
                  None \<Rightarrow> (Inl TypeError, s)
                | Some n \<Rightarrow>
                    if 3 < n then (Inl (ValidationError AtMostThreeTags), s)
                    else (case py_iter tags_data of
                            None \<Rightarrow> (Inl TypeError, s)
                          | Some names \<Rightarrow>
                              (case resolve_loop s names [] of
                                 Inl e \<Rightarrow> (Inl e, s)
                               | Inr tgs \<Rightarrow>
                                   (case save_new t u d tgs s of (p, s') \<Rightarrow> (Inr p, s'))))))"

text \<open>
  \<^verbatim>\<open>PostViewSet.create\<close> (lines 56 to 64). \<open>valid\<close> is \<^verbatim>\<open>PostDetailSerializer.is_valid\<close>,
  a parameter: it takes the \<^verbatim>\<open>partial\<close> flag and the body.
\<close>

definition create :: "(bool \<Rightarrow> request_data \<Rightarrow> bool) \<Rightarrow> time \<Rightarrow> user \<Rightarrow> request_data \<Rightarrow> store
    \<Rightarrow> (error + post) \<times> store" where
  "create valid t u d s =
     (if \<not> valid False d then (Inl (ValidationError SerializerErrors), s)
      else perform_create t u d s)"

text \<open>
  \<^verbatim>\<open>get_object\<close> of the generic view: the post of the query set with the given key, or
  a 404; then the object permission check. \<open>perm\<close> is the permission class
  \<^verbatim>\<open>IsAdminAuthorOrReadOnly\<close> (\<^verbatim>\<open>posts/permissions.py\<close>), a parameter.
\<close>

definition get_object :: "(user \<Rightarrow> post \<Rightarrow> bool) \<Rightarrow> store \<Rightarrow> nat \<Rightarrow> user \<Rightarrow> error + post" where
  "get_object perm s pk u =
     (case find (\<lambda>p. post_id p = pk) (Post_objects s) of
        None \<Rightarrow> Inl Http404
      | Some p \<Rightarrow> if perm u p then Inr p else Inl PermissionDenied)"

text \<open>\<^verbatim>\<open>PostViewSet.retrieve\<close> (lines 47 to 54).\<close>

definition retrieve :: "(user \<Rightarrow> post \<Rightarrow> bool) \<Rightarrow> store \<Rightarrow> nat \<Rightarrow> user \<Rightarrow> error + post" where
  "retrieve perm s pk u = get_object perm s pk u"

text \<open>\<^verbatim>\<open>PostViewSet.perform_update\<close> (lines 113 to 125), on the instance the serializer holds.\<close>

definition perform_update :: "request_data \<Rightarrow> post \<Rightarrow> store \<Rightarrow> (error + post) \<times> store" where
  "perform_update d instance s =
     (case d_tags d of
        None \<Rightarrow> (case save_instance d None instance s of (p, s') \<Rightarrow> (Inr p, s'))
      | Some tags_data \<Rightarrow>
          if py_bool tags_data
          then (case py_iter tags_data of
                  None \<Rightarrow> (Inl TypeError, s)
                | Some names \<Rightarrow>
                    (case resolve_loop s names [] of
                       Inl e \<Rightarrow> (Inl e, s)
                     | Inr tgs \<Rightarrow>
                         (case save_instance d (Some tgs) instance s of (p, s') \<Rightarrow> (Inr p, s'))))
          else (case save_instance d None instance s of (p, s') \<Rightarrow> (Inr p, s')))"

text \<open>
  The tag checks at the head of \<^verbatim>\<open>PostViewSet.update\<close> (lines 89 to 96); \<open>None\<close> when
  nothing raises.
\<close>

definition update_tag_check :: "bool \<Rightarrow> tags_value option \<Rightarrow> error option" where
  "update_tag_check partial tags_data =
     (if partial \<and> tags_data = None then None
      else (case tags_data of
              None \<Rightarrow> Some (ValidationError SelectAtLeastOneTag)
            | Some v \<Rightarrow>
                if \<not> py_bool v then Some (ValidationError SelectAtLeastOneTag)
                else (case py_len v of
                        None \<Rightarrow> Some TypeError
                      | Some n \<Rightarrow> if 3 < n then Some (ValidationError AtMostThreeTags) else None)))"

text \<open>\<^verbatim>\<open>PostViewSet.update\<close> (lines 85 to 111), for \<^verbatim>\<open>PUT\<close> and \<^verbatim>\<open>PATCH\<close>.\<close>

definition update :: "(bool \<Rightarrow> request_data \<Rightarrow> bool) \<Rightarrow> (user \<Rightarrow> post \<Rightarrow> bool) \<Rightarrow> bool \<Rightarrow> nat \<Rightarrow> user
    \<Rightarrow> request_data \<Rightarrow> store \<Rightarrow> (error + post) \<times> store" where
  "update valid perm partial pk u d s =
     (case update_tag_check partial (d_tags d) of
        Some e \<Rightarrow> (Inl e, s)
      | None \<Rightarrow>
          (case get_object perm s pk u of
             Inl e \<Rightarrow> (Inl e, s)
           | Inr instance \<Rightarrow>
               if \<not> valid partial d then (Inl (ValidationError SerializerErrors), s)
               else perform_update d instance s))"

section \<open>Comparisons that order rows\<close>

text \<open>
  What \<open>order_by\<close> needs of a comparison to sort with it: swapping the rows swaps
  \<open>Before\<close> and \<open>After\<close>, rows that tie compare alike with every third row, and
  \<open>Before\<close> is transitive.
\<close>

definition cmp_ok :: "('a \<Rightarrow> 'a \<Rightarrow> cmp) \<Rightarrow> bool" where
  "cmp_ok c \<longleftrightarrow>
     (\<forall>a b. (c a b = After) = (c b a = Before)) \<and>
     (\<forall>a b. (c a b = Tie) = (c b a = Tie)) \<and>
     (\<forall>a b d. c a b = Tie \<longrightarrow> c a d = c b d) \<and>
     (\<forall>a b d. c a b = Before \<longrightarrow> c b d = Before \<longrightarrow> c a d = Before)"

section \<open>Example data\<close>

text \<open>
  The listing scenario of the specification: A is pinned, has no reply and was created
  on day 1; B and C are not pinned, B has a reply on day 5 and C one on day 3. The
  creation times of B and C are left open.
\<close>

definition scenario_A :: post where
  "scenario_A = \<lparr>post_id = 1, title = ''A'', body = [], pinned = True,
     created_time = timedelta_days 1, author = 1, tags = [1]\<rparr>"

definition scenario_B :: "time \<Rightarrow> post" where
  "scenario_B tb = \<lparr>post_id = 2, title = ''B'', body = [], pinned = False,
     created_time = tb, author = 1, tags = [1]\<rparr>"

definition scenario_C :: "time \<Rightarrow> post" where
  "scenario_C tc = \<lparr>post_id = 3, title = ''C'', body = [], pinned = False,
     created_time = tc, author = 1, tags = [1]\<rparr>"

definition listing_scenario :: "time \<Rightarrow> time \<Rightarrow> store" where
  "listing_scenario tb tc =
     \<lparr>post_table = [scenario_C tc, scenario_B tb, scenario_A],
      reply_table = [\<lparr>reply_post = 3, submit_date = timedelta_days 3\<rparr>,
                     \<lparr>reply_post = 2, submit_date = timedelta_days 5\<rparr>],
      tag_table = []\<rparr>"

definition listing_example :: store where
  "listing_example =
     \<lparr>post_table =
        [\<lparr>post_id = 5, title = ''e'', body = [], pinned = False, created_time = 10, author = 1, tags = [1]\<rparr>,
         \<lparr>post_id = 4, title = ''d'', body = [], pinned = False, created_time = 20, author = 1, tags = [1]\<rparr>,
         \<lparr>post_id = 3, title = ''c'', body = [], pinned = False, created_time = 5, author = 1, tags = [1]\<rparr>,
         \<lparr>post_id = 2, title = ''b'', body = [], pinned = False, created_time = 6, author = 1, tags = [1]\<rparr>,
         \<lparr>post_id = 1, title = ''a'', body = [], pinned = True, created_time = 1, author = 1, tags = [1]\<rparr>],
      reply_table = [\<lparr>reply_post = 3, submit_date = 30\<rparr>, \<lparr>reply_post = 2, submit_date = 50\<rparr>,
                     \<lparr>reply_post = 2, submit_date = 40\<rparr>],
      tag_table = []\<rparr>"

definition replies_at :: "nat \<Rightarrow> time list \<Rightarrow> reply list" where
  "replies_at pk ts = map (\<lambda>t. \<lparr>reply_post = pk, submit_date = t\<rparr>) ts"

definition hours :: "int \<Rightarrow> time" where
  "hours h = h * 3600000000"

definition scenario_X :: post where
  "scenario_X = \<lparr>post_id = 1, title = ''X'', body = [], pinned = False,
     created_time = 0, author = 1, tags = [1]\<rparr>"

definition scenario_Y :: post where
  "scenario_Y = \<lparr>post_id = 2, title = ''Y'', body = [], pinned = False,
     created_time = 0, author = 1, tags = [1]\<rparr>"

definition scenario_Z :: post where
  "scenario_Z = \<lparr>post_id = 3, title = ''Z'', body = [], pinned = False,
     created_time = 0, author = 1, tags = [1]\<rparr>"

definition popular_scenario :: "time \<Rightarrow> store" where
  "popular_scenario now =
     \<lparr>post_table = [scenario_Z, scenario_Y, scenario_X],
      reply_table =
        replies_at 3 [now - timedelta_days 3, now - timedelta_days 3 - hours 1,
          now - timedelta_days 3 - hours 2, now - timedelta_days 3 - hours 3,
          now - timedelta_days 3 - hours 4]
        @ replies_at 2 [now - hours 2, now - hours 20]
        @ replies_at 1 [now - hours 1, now - hours 2, now - hours 3, now - hours 4,
            now - hours 5, now - hours 6, now - hours 7, now - hours 8, now - hours 9,
            now - hours 10, now - hours 23],
      tag_table = []\<rparr>"

text \<open>
  A store with three tags and four posts; the post with key 4 is the one the example
  predicate \<open>visible\<close> hides, and it has the most recent replies.
\<close>

definition forum_tags :: "tag list" where
  "forum_tags = [\<lparr>tag_id = 1, tag_name = ''django''\<rparr>, \<lparr>tag_id = 2, tag_name = ''python''\<rparr>,
     \<lparr>tag_id = 3, tag_name = ''rest''\<rparr>]"

definition forum_post :: "nat \<Rightarrow> bool \<Rightarrow> time \<Rightarrow> nat list \<Rightarrow> post" where
  "forum_post k pin t tgs = \<lparr>post_id = k, title = ''post'', body = ''text'', pinned = pin,
     created_time = t, author = 7, tags = tgs\<rparr>"

definition forum :: store where
  "forum =
     \<lparr>post_table = [forum_post 1 False 10 [1], forum_post 2 False 20 [2, 3],
        forum_post 3 True 30 [3], forum_post 4 False 40 [1, 2]],
      reply_table = replies_at 4 [100, 110, 120] @ replies_at 1 [90],
      tag_table = forum_tags\<rparr>"

definition visible :: "post \<Rightarrow> bool" where
  "visible p = (post_id p \<noteq> 4)"

text \<open>Request bodies for the examples: a title, a body and the given tags value.\<close>

definition body_with_tags :: "tags_value option \<Rightarrow> request_data" where
  "body_with_tags tags_data =
     \<lparr>d_title = Some ''hello'', d_body = Some ''world'', d_pinned = None, d_tags = tags_data\<rparr>"

definition accept :: "bool \<Rightarrow> request_data \<Rightarrow> bool" where
  "accept partial d = True"

text \<open>
  A serializer that wants a title unless the update is partial, and a body without
  title and without tags.
\<close>

definition title_required :: "bool \<Rightarrow> request_data \<Rightarrow> bool" where
  "title_required partial d = (partial \<or> d_title d \<noteq> None)"

definition untitled :: request_data where
  "untitled = \<lparr>d_title = None, d_body = Some ''world'', d_pinned = None, d_tags = None\<rparr>"

text \<open>The request values that denote the keys 1, 2, 3 and 9; no other value does.\<close>

definition forum_pk :: "string \<Rightarrow> nat option" where
  "forum_pk v =
     (if v = ''1'' then Some 1 else if v = ''2'' then Some 2
      else if v = ''3'' then Some 3 else if v = ''9'' then Some 9 else None)"

definition author_only :: "user \<Rightarrow> post \<Rightarrow> bool" where
  "author_only u p = (author p = u)"

section \<open>Sorting with a comparison\<close>

lemma cmp_ok_swap: "cmp_ok c \<Longrightarrow> (c a b = After) = (c b a = Before)"
  unfolding cmp_ok_def by (elim conjE) (erule allE [of _ a], erule allE [of _ b])

lemma cmp_ok_tie_sym: "cmp_ok c \<Longrightarrow> (c a b = Tie) = (c b a = Tie)"
  unfolding cmp_ok_def by (elim conjE) (erule allE [of "\<lambda>a. \<forall>b. (c a b = Tie) = (c b a = Tie)" a], erule allE [of _ b])

lemma cmp_ok_tie_cong: "cmp_ok c \<Longrightarrow> c a b = Tie \<Longrightarrow> c a d = c b d"
  unfolding cmp_ok_def by meson

lemma cmp_ok_trans: "cmp_ok c \<Longrightarrow> c a b = Before \<Longrightarrow> c b d = Before \<Longrightarrow> c a d = Before"
  unfolding cmp_ok_def by meson

lemma sql_desc_swap: "(sql_desc nc x y = After) = (sql_desc nc y x = Before)"
  by (cases nc; cases x; cases y) auto

lemma sql_desc_tie_sym: "(sql_desc nc x y = Tie) = (sql_desc nc y x = Tie)"
  by (cases nc; cases x; cases y) auto

lemma sql_desc_tie_eq: "(sql_desc nc x y = Tie) = (x = y)"
  by (cases nc; cases x; cases y) auto

lemma sql_desc_trans: "sql_desc nc x y = Before \<Longrightarrow> sql_desc nc y z = Before \<Longrightarrow> sql_desc nc x z = Before"
  by (cases nc; cases x; cases y; cases z) (auto split: if_splits)

lemma desc_ok: "cmp_ok (desc nc key)"
  unfolding cmp_ok_def desc_def
proof (intro conjI allI impI)
  fix a b d
  show "(sql_desc nc (key a) (key b) = After) = (sql_desc nc (key b) (key a) = Before)"
    by (rule sql_desc_swap)
  show "(sql_desc nc (key a) (key b) = Tie) = (sql_desc nc (key b) (key a) = Tie)"
    by (rule sql_desc_tie_sym)
  show "sql_desc nc (key a) (key d) = sql_desc nc (key b) (key d)"
    if "sql_desc nc (key a) (key b) = Tie"
    using that by (simp add: sql_desc_tie_eq)
  show "sql_desc nc (key a) (key d) = Before"
    if "sql_desc nc (key a) (key b) = Before" "sql_desc nc (key b) (key d) = Before"
    using that by (rule sql_desc_trans)
qed


lemma cmp_ok_refl: "cmp_ok c \<Longrightarrow> c a a = Tie"
  using cmp_ok_swap [of c a a] by (cases "c a a") simp_all

lemma cmp_ok_tie_cong2:
  assumes ok: "cmp_ok c" and t: "c b d = Tie"
  shows "c a b = c a d"
proof -
  have e: "c b a = c d a" using ok t by (rule cmp_ok_tie_cong)
  show ?thesis
  proof (cases "c a b")
    case Before
    then have "c b a = After" using cmp_ok_swap [OF ok, of b a] by simp
    then have "c d a = After" using e by simp
    then have "c a d = Before" using cmp_ok_swap [OF ok, of d a] by simp
    with Before show ?thesis by simp
  next
    case Tie
    then have "c b a = Tie" using cmp_ok_tie_sym [OF ok, of a b] by simp
    then have "c d a = Tie" using e by simp
    then have "c a d = Tie" using cmp_ok_tie_sym [OF ok, of a d] by simp
    with Tie show ?thesis by simp
  next
    case After
    then have "c b a = Before" using cmp_ok_swap [OF ok, of a b] by simp
    then have "c d a = Before" using e by simp
    then have "c a d = After" using cmp_ok_swap [OF ok, of a d] by simp
    with After show ?thesis by simp
  qed
qed

lemma cmp_ok_le_trans:
  assumes ok: "cmp_ok c" and 1: "c a b \<noteq> After" and 2: "c b d \<noteq> After"
  shows "c a d \<noteq> After"
proof (cases "c a b")
  case Tie
  then have "c a d = c b d" using ok by (simp add: cmp_ok_tie_cong)
  with 2 show ?thesis by simp
next
  case After
  with 1 show ?thesis by simp
next
  case Before
  show ?thesis
  proof (cases "c b d")
    case Tie
    then have "c a b = c a d" using ok by (rule cmp_ok_tie_cong2 [rotated])
    with Before show ?thesis by simp
  next
    case After
    with 2 show ?thesis by simp
  next
    case b2: Before
    have "c a d = Before" using ok Before b2 by (rule cmp_ok_trans)
    then show ?thesis by simp
  qed
qed

lemma order_cmp_Cons_Before:
  "(order_cmp (c # cs) a b = Before) = (c a b = Before \<or> c a b = Tie \<and> order_cmp cs a b = Before)"
  by (cases "c a b") simp_all

lemma order_cmp_Cons_After:
  "(order_cmp (c # cs) a b = After) = (c a b = After \<or> c a b = Tie \<and> order_cmp cs a b = After)"
  by (cases "c a b") simp_all

lemma order_cmp_Cons_Tie:
  "(order_cmp (c # cs) a b = Tie) = (c a b = Tie \<and> order_cmp cs a b = Tie)"
  by (cases "c a b") simp_all

lemma order_cmp_ok: "\<forall>c \<in> set cs. cmp_ok c \<Longrightarrow> cmp_ok (order_cmp cs)"
proof (induction cs)
  case Nil
  show ?case unfolding cmp_ok_def by simp
next
  case (Cons c cs)
  then have c: "cmp_ok c" and r: "cmp_ok (order_cmp cs)" by simp_all
  show ?case
    unfolding cmp_ok_def
  proof (intro conjI allI impI)
    fix a b
    show "(order_cmp (c # cs) a b = After) = (order_cmp (c # cs) b a = Before)"
      unfolding order_cmp_Cons_After order_cmp_Cons_Before
      using cmp_ok_swap [OF c, of a b] cmp_ok_tie_sym [OF c, of a b]
        cmp_ok_swap [OF r, of a b] by simp
    show "(order_cmp (c # cs) a b = Tie) = (order_cmp (c # cs) b a = Tie)"
      unfolding order_cmp_Cons_Tie
      using cmp_ok_tie_sym [OF c, of a b] cmp_ok_tie_sym [OF r, of a b] by simp
  next
    fix a b d
    assume "order_cmp (c # cs) a b = Tie"
    then have t: "c a b = Tie" "order_cmp cs a b = Tie"
      unfolding order_cmp_Cons_Tie by simp_all
    have "c a d = c b d" using c t(1) by (rule cmp_ok_tie_cong)
    moreover have "order_cmp cs a d = order_cmp cs b d" using r t(2) by (rule cmp_ok_tie_cong)
    ultimately show "order_cmp (c # cs) a d = order_cmp (c # cs) b d"
      by (cases "c b d") simp_all
  next
    fix a b d
    assume "order_cmp (c # cs) a b = Before" and "order_cmp (c # cs) b d = Before"
    then consider
        (bb) "c a b = Before" "c b d = Before"
      | (bt) "c a b = Before" "c b d = Tie"
      | (tb) "c a b = Tie" "c b d = Before"
      | (tt) "c a b = Tie" "c b d = Tie" "order_cmp cs a b = Before" "order_cmp cs b d = Before"
      unfolding order_cmp_Cons_Before by blast
    then show "order_cmp (c # cs) a d = Before"
    proof cases
      case bb
      then have "c a d = Before" using c cmp_ok_trans by metis
      then show ?thesis by simp
    next
      case bt
      then have "c a d = Before" using cmp_ok_tie_cong2 [OF c bt(2), of a] by simp
      then show ?thesis by simp
    next
      case tb
      then have "c a d = Before" using cmp_ok_tie_cong [OF c tb(1), of d] by simp
      then show ?thesis by simp
    next
      case tt
      have "c a d = Tie" using cmp_ok_tie_cong [OF c tt(1), of d] tt(2) by simp
      moreover have "order_cmp cs a d = Before" using r tt(3) tt(4) by (rule cmp_ok_trans)
      ultimately show ?thesis by simp
    qed
  qed
qed

lemma set_insert_row: "set (insert_row c x ys) = insert x (set ys)"
  by (induction ys) auto

lemma mset_insert_row: "mset (insert_row c x ys) = add_mset x (mset ys)"
  by (induction ys) auto

lemma mset_order_by: "mset (order_by cs xs) = mset xs"
  unfolding order_by_def by (induction xs) (simp_all add: mset_insert_row)

lemma set_order_by: "set (order_by cs xs) = set xs"
  using mset_order_by [of cs xs] by (metis set_mset_mset)

lemma length_order_by: "length (order_by cs xs) = length xs"
  using mset_order_by [of cs xs] by (metis size_mset)

lemma sorted_insert_row:
  assumes ok: "cmp_ok c"
  shows "sorted_wrt (\<lambda>a b. c a b \<noteq> After) ys \<Longrightarrow> sorted_wrt (\<lambda>a b. c a b \<noteq> After) (insert_row c x ys)"
proof (induction ys)
  case Nil
  show ?case by simp
next
  case (Cons y ys)
  show ?case
  proof (cases "c x y = After")
    case True
    then have "c y x = Before" using cmp_ok_swap [OF ok, of x y] by simp
    then have "c y x \<noteq> After" by simp
    with True Cons show ?thesis by (simp add: set_insert_row)
  next
    case False
    have "c x z \<noteq> After" if "z \<in> set ys" for z
    proof -
      have "c y z \<noteq> After" using Cons.prems that by simp
      with ok False show ?thesis by (rule cmp_ok_le_trans)
    qed
    with False Cons.prems show ?thesis by simp
  qed
qed

lemma sorted_order_by:
  assumes "\<forall>c \<in> set cs. cmp_ok c"
  shows "sorted_wrt (\<lambda>a b. order_cmp cs a b \<noteq> After) (order_by cs xs)"
  unfolding order_by_def
  by (induction xs) (simp_all add: sorted_insert_row [OF order_cmp_ok [OF assms]])

lemma order_by_precedes:
  assumes ok: "\<forall>c \<in> set cs. cmp_ok c"
    and i: "i < length (order_by cs xs)" and j: "j < length (order_by cs xs)"
    and b: "order_cmp cs (order_by cs xs ! i) (order_by cs xs ! j) = Before"
  shows "i < j"
proof (rule ccontr)
  assume "\<not> i < j"
  then consider "i = j" | "j < i" by linarith
  then show False
  proof cases
    case 1
    have "order_cmp cs (order_by cs xs ! i) (order_by cs xs ! i) = Tie"
      using order_cmp_ok [OF ok] by (rule cmp_ok_refl)
    then show False using b 1 by simp
  next
    case 2
    have "order_cmp cs (order_by cs xs ! j) (order_by cs xs ! i) \<noteq> After"
      using sorted_order_by [OF ok, of xs] 2 i by (simp add: sorted_wrt_iff_nth_less)
    moreover have "order_cmp cs (order_by cs xs ! j) (order_by cs xs ! i) = After"
      using cmp_ok_swap [OF order_cmp_ok [OF ok]] b by simp
    ultimately show False by simp
  qed
qed

section \<open>The listing order\<close>

lemma listing_order_ok: "\<forall>c \<in> set (listing_order nc s). cmp_ok c"
  by (simp add: listing_order_def desc_ok)

lemma listing_cmp_pinned:
  "pinned p \<Longrightarrow> \<not> pinned q \<Longrightarrow> order_cmp (listing_order nc s) p q = Before"
  by (simp add: listing_order_def desc_def)

lemma listing_cmp_latest:
  "pinned p = pinned q \<Longrightarrow> latest_reply_time s p = Some a \<Longrightarrow> latest_reply_time s q = Some b
    \<Longrightarrow> b < a \<Longrightarrow> order_cmp (listing_order nc s) p q = Before"
  by (simp add: listing_order_def desc_def)

lemma listing_cmp_no_reply:
  "pinned p = pinned q \<Longrightarrow> latest_reply_time s p = Some a \<Longrightarrow> latest_reply_time s q = None
    \<Longrightarrow> order_cmp (listing_order NullsSmallest s) p q = Before"
  by (simp add: listing_order_def desc_def)

lemma listing_cmp_no_reply_first:
  "pinned p = pinned q \<Longrightarrow> latest_reply_time s p = None \<Longrightarrow> latest_reply_time s q = Some b
    \<Longrightarrow> order_cmp (listing_order NullsLargest s) p q = Before"
  by (simp add: listing_order_def desc_def)

lemma listing_cmp_created:
  "pinned p = pinned q \<Longrightarrow> latest_reply_time s p = latest_reply_time s q
    \<Longrightarrow> created_time q < created_time p \<Longrightarrow> order_cmp (listing_order nc s) p q = Before"
  by (simp add: listing_order_def desc_def sql_desc_tie_eq [THEN iffD2])

lemma queryset_precedes:
  "i < length (queryset nc s) \<Longrightarrow> j < length (queryset nc s)
    \<Longrightarrow> order_cmp (listing_order nc s) (queryset nc s ! i) (queryset nc s ! j) = Before \<Longrightarrow> i < j"
  unfolding queryset_def by (rule order_by_precedes [OF listing_order_ok])

lemma listing_scenario_eval:
  "queryset nc (listing_scenario tb tc) = [scenario_A, scenario_B tb, scenario_C tc]"
  by (cases nc)
    (simp_all add: queryset_def Post_objects_def order_by_def listing_order_def desc_def
      listing_scenario_def scenario_A_def scenario_B_def scenario_C_def
      latest_reply_time_def replies_def Max_submit_date_def timedelta_days_def)

lemma listing_example_eval:
  "map post_id (queryset NullsSmallest listing_example) = [1, 2, 3, 4, 5]"
  "map post_id (queryset NullsLargest listing_example) = [1, 4, 5, 2, 3]"
  by (simp_all add: queryset_def Post_objects_def order_by_def listing_order_def desc_def
      listing_example_def latest_reply_time_def replies_def Max_submit_date_def)

section \<open>Popular posts: the filter and the ranking\<close>

lemma Max_submit_date_None: "(Max_submit_date rs = None) = (rs = [])"
  by (cases rs) (simp_all add: Max_submit_date_def)

lemma Max_submit_date_Some:
  assumes "Max_submit_date rs = Some l"
  shows "l \<in> submit_date ` set rs \<and> (\<forall>r \<in> set rs. submit_date r \<le> l)"
proof (cases rs)
  case Nil
  with assms show ?thesis by (simp add: Max_submit_date_def)
next
  case (Cons r rs')
  with assms have "l = fold max (map submit_date rs') (submit_date r)"
    by (simp add: Max_submit_date_def)
  moreover have "Max (set (submit_date r # map submit_date rs'))
      = fold max (map submit_date rs') (submit_date r)"
    by (rule Max.set_eq_fold)
  ultimately have l: "l = Max (set (map submit_date rs))"
    using Cons by simp
  have ne: "set (map submit_date rs) \<noteq> {}" using Cons by simp
  have "l \<in> set (map submit_date rs)"
    unfolding l using ne by (intro Max_in) simp_all
  moreover have "\<forall>x \<in> set (map submit_date rs). x \<le> l"
    unfolding l by (intro ballI Max_ge) simp_all
  ultimately show ?thesis by auto
qed

lemma latest_reply_time_Some:
  "latest_reply_time s p = Some l \<Longrightarrow>
     (\<exists>r \<in> set (replies s p). submit_date r = l) \<and> (\<forall>r \<in> set (replies s p). submit_date r \<le> l)"
  unfolding latest_reply_time_def using Max_submit_date_Some [of "replies s p" l] by auto

lemma latest_reply_time_None: "(latest_reply_time s p = None) = (num_replies s p = 0)"
  by (simp add: latest_reply_time_def num_replies_def Max_submit_date_None)

lemma popular_filter_iff:
  "popular_filter s now1 now2 p \<longleftrightarrow>
     0 < num_replies s p
     \<and> (\<exists>l. latest_reply_time s p = Some l \<and> now1 - timedelta_days 2 < l \<and> l < now2)"
  by (cases "latest_reply_time s p") (simp_all add: popular_filter_def sql_gt_def sql_lt_def)

lemma set_popular_subset:
  "set (popular public nc s now1 now2)
     \<subseteq> {p \<in> set (post_table s). public p \<and> popular_filter s now1 now2 p}"
proof -
  have "set (popular public nc s now1 now2)
      \<subseteq> set (order_by (popular_order nc s)
            (filter (popular_filter s now1 now2) (Post_public public s)))"
    unfolding popular_def by (rule set_take_subset)
  then show ?thesis by (auto simp: set_order_by Post_public_def)
qed

lemma popular_order_ok: "\<forall>c \<in> set (popular_order nc s). cmp_ok c"
  by (simp add: popular_order_def desc_ok)

lemma popular_cmp_count:
  "num_replies s q < num_replies s p \<Longrightarrow> order_cmp (popular_order nc s) p q = Before"
  by (simp add: popular_order_def desc_def)

lemma popular_cmp_latest:
  "num_replies s p = num_replies s q \<Longrightarrow> latest_reply_time s p = Some a
    \<Longrightarrow> latest_reply_time s q = Some b \<Longrightarrow> b < a
    \<Longrightarrow> order_cmp (popular_order nc s) p q = Before"
  by (simp add: popular_order_def desc_def)

lemma popular_precedes:
  assumes i: "i < length (popular public nc s now1 now2)"
    and j: "j < length (popular public nc s now1 now2)"
    and b: "order_cmp (popular_order nc s) (popular public nc s now1 now2 ! i)
              (popular public nc s now1 now2 ! j) = Before"
  shows "i < j"
proof -
  let ?S = "order_by (popular_order nc s)
      (filter (popular_filter s now1 now2) (Post_public public s))"
  have P: "popular public nc s now1 now2 = take 10 ?S" by (simp add: popular_def)
  have i': "i < length ?S" and j': "j < length ?S" using i j unfolding P by simp_all
  have "take 10 ?S ! i = ?S ! i" "take 10 ?S ! j = ?S ! j" using i j unfolding P by simp_all
  then have "order_cmp (popular_order nc s) (?S ! i) (?S ! j) = Before" using b unfolding P by simp
  with popular_order_ok i' j' show ?thesis by (rule order_by_precedes)
qed

lemma popular_top:
  assumes i: "i < length (popular public nc s now1 now2)"
    and e: "e \<in> set (Post_public public s)" "popular_filter s now1 now2 e"
    and n: "e \<notin> set (popular public nc s now1 now2)"
  shows "order_cmp (popular_order nc s) e (popular public nc s now1 now2 ! i) \<noteq> Before"
proof -
  let ?S = "order_by (popular_order nc s)
      (filter (popular_filter s now1 now2) (Post_public public s))"
  have P: "popular public nc s now1 now2 = take 10 ?S" by (simp add: popular_def)
  have "e \<in> set ?S" using e by (simp add: set_order_by)
  then obtain k where k: "k < length ?S" "?S ! k = e" by (auto simp: in_set_conv_nth)
  have "\<not> k < 10"
  proof
    assume "k < 10"
    then have "take 10 ?S ! k = e" "k < length (take 10 ?S)" using k by simp_all
    then have "e \<in> set (take 10 ?S)" by (metis nth_mem)
    with n show False unfolding P by simp
  qed
  moreover have i10: "i < 10" "i < length ?S" using i unfolding P by simp_all
  ultimately have ik: "i < k" by simp
  have "sorted_wrt (\<lambda>a b. order_cmp (popular_order nc s) a b \<noteq> After) ?S"
    using popular_order_ok by (rule sorted_order_by)
  then have "order_cmp (popular_order nc s) (?S ! i) (?S ! k) \<noteq> After"
    using ik k(1) by (simp add: sorted_wrt_iff_nth_less)
  then have "order_cmp (popular_order nc s) (?S ! k) (?S ! i) \<noteq> Before"
    using cmp_ok_swap [OF order_cmp_ok [OF popular_order_ok], of nc s "?S ! i" "?S ! k"] by simp
  moreover have "popular public nc s now1 now2 ! i = ?S ! i" using i unfolding P by simp
  ultimately show ?thesis using k(2) by simp
qed

lemma popular_scenario_eval:
  "popular (\<lambda>p. True) nc (popular_scenario now) now now = [scenario_X, scenario_Y]"
  by (cases nc)
    (simp_all add: popular_def popular_filter_def popular_order_def Post_public_def
      order_by_def desc_def popular_scenario_def
      scenario_X_def scenario_Y_def scenario_Z_def replies_at_def hours_def
      num_replies_def latest_reply_time_def replies_def Max_submit_date_def timedelta_days_def
      sql_gt_def sql_lt_def)

lemma popular_scenario_aggregates:
  "num_replies (popular_scenario now) scenario_X = 11"
  "num_replies (popular_scenario now) scenario_Y = 2"
  "num_replies (popular_scenario now) scenario_Z = 5"
  "latest_reply_time (popular_scenario now) scenario_X = Some (now - hours 1)"
  "latest_reply_time (popular_scenario now) scenario_Y = Some (now - hours 2)"
  "latest_reply_time (popular_scenario now) scenario_Z = Some (now - timedelta_days 3)"
  by (simp_all add: popular_scenario_def
      scenario_X_def scenario_Y_def scenario_Z_def replies_at_def hours_def
      num_replies_def latest_reply_time_def replies_def Max_submit_date_def timedelta_days_def)

section \<open>The tag filter of the listing\<close>

lemma insert_row_first: "\<forall>z \<in> set zs. c x z \<noteq> After \<Longrightarrow> insert_row c x zs = x # zs"
  by (cases zs) simp_all

lemma filter_insert_row:
  assumes ok: "cmp_ok c"
  shows "sorted_wrt (\<lambda>a b. c a b \<noteq> After) ys \<Longrightarrow>
    filter P (insert_row c x ys) = (if P x then insert_row c x (filter P ys) else filter P ys)"
proof (induction ys)
  case Nil
  show ?case by simp
next
  case (Cons y ys)
  then have IH: "filter P (insert_row c x ys)
      = (if P x then insert_row c x (filter P ys) else filter P ys)"
    and le: "\<forall>z \<in> set ys. c y z \<noteq> After" by simp_all
  show ?case
  proof (cases "c x y = After")
    case True
    then show ?thesis using IH by simp
  next
    case False
    have "c x z \<noteq> After" if "z \<in> set (y # ys)" for z
    proof (cases "z = y")
      case True
      with False show ?thesis by simp
    next
      case ne: False
      with that le have "c y z \<noteq> After" by simp
      with ok False show ?thesis by (rule cmp_ok_le_trans)
    qed
    then have "\<forall>z \<in> set (filter P (y # ys)). c x z \<noteq> After" by simp
    then have "insert_row c x (filter P (y # ys)) = x # filter P (y # ys)"
      by (rule insert_row_first)
    with False show ?thesis by simp
  qed
qed

lemma filter_order_by:
  assumes "\<forall>c \<in> set cs. cmp_ok c"
  shows "filter P (order_by cs xs) = order_by cs (filter P xs)"
proof (induction xs)
  case Nil
  show ?case by (simp add: order_by_def)
next
  case (Cons x xs)
  have s: "sorted_wrt (\<lambda>a b. order_cmp cs a b \<noteq> After) (order_by cs xs)"
    using assms by (rule sorted_order_by)
  have "filter P (order_by cs (x # xs)) = filter P (insert_row (order_cmp cs) x (order_by cs xs))"
    by (simp add: order_by_def)
  also have "\<dots> = (if P x then insert_row (order_cmp cs) x (filter P (order_by cs xs))
      else filter P (order_by cs xs))"
    using order_cmp_ok [OF assms] s by (rule filter_insert_row)
  also have "\<dots> = order_by cs (filter P (x # xs))"
    using Cons by (simp add: order_by_def)
  finally show ?case .
qed

lemma has_chosen_tag:
  assumes "list_all (valid_choice to_python s) vs"
  shows "has_any_tag (filter (chosen to_python vs) (tag_table s)) p
    = (\<exists>v \<in> set vs. \<exists>k \<in> set (tags p). to_python v = Some k)"
proof
  assume "has_any_tag (filter (chosen to_python vs) (tag_table s)) p"
  then show "\<exists>v \<in> set vs. \<exists>k \<in> set (tags p). to_python v = Some k"
    by (auto simp: has_any_tag_def chosen_def)
next
  assume "\<exists>v \<in> set vs. \<exists>k \<in> set (tags p). to_python v = Some k"
  then obtain v k where v: "v \<in> set vs" "k \<in> set (tags p)" "to_python v = Some k" by blast
  from assms v(1) have "valid_choice to_python s v" by (simp add: list_all_iff)
  with v(3) obtain t where "t \<in> set (tag_table s)" "tag_id t = k"
    by (auto simp: valid_choice_def)
  with v show "has_any_tag (filter (chosen to_python vs) (tag_table s)) p"
    by (auto simp: has_any_tag_def chosen_def)
qed

lemma chosen_nonempty:
  assumes "list_all (valid_choice to_python s) vs" and "vs \<noteq> []"
  shows "filter (chosen to_python vs) (tag_table s) \<noteq> []"
proof -
  from assms(2) obtain v where v: "v \<in> set vs" by (cases vs) auto
  with assms(1) have "valid_choice to_python s v" by (simp add: list_all_iff)
  then obtain t where "t \<in> set (tag_table s)" "to_python v = Some (tag_id t)"
    by (auto simp: valid_choice_def split: option.splits)
  with v have "t \<in> set (filter (chosen to_python vs) (tag_table s))"
    by (auto simp: chosen_def)
  then show ?thesis by (metis empty_iff empty_set)
qed

lemma list_posts_valid:
  assumes "list_all (valid_choice to_python s) vs" and "vs \<noteq> []"
  shows "list_posts nc strict to_python s vs
    = Inr (order_by (listing_order nc s)
        (filter (\<lambda>p. \<exists>v \<in> set vs. \<exists>k \<in> set (tags p). to_python v = Some k) (Post_objects s)))"
proof -
  let ?ts = "filter (chosen to_python vs) (tag_table s)"
  have ne: "?ts \<noteq> []" using assms by (rule chosen_nonempty)
  have "list_posts nc strict to_python s vs = Inr (filter (has_any_tag ?ts) (queryset nc s))"
    using assms(1) ne by (simp add: list_posts_def filter_queryset_def clean_tags_def tags_filter_def)
  also have "filter (has_any_tag ?ts) (queryset nc s)
      = order_by (listing_order nc s) (filter (has_any_tag ?ts) (Post_objects s))"
    unfolding queryset_def by (rule filter_order_by [OF listing_order_ok])
  also have "has_any_tag ?ts = (\<lambda>p. \<exists>v \<in> set vs. \<exists>k \<in> set (tags p). to_python v = Some k)"
    by (rule ext) (rule has_chosen_tag [OF assms(1)])
  finally show ?thesis .
qed

lemma list_posts_invalid:
  assumes "\<not> list_all (valid_choice to_python s) vs"
  shows "list_posts nc RaiseValidationError to_python s vs = Inl (ValidationError FilterErrors)"
    and "list_posts nc ReturnNoResults to_python s vs = Inr []"
  using assms by (simp_all add: list_posts_def filter_queryset_def clean_tags_def)

lemma list_posts_no_filter:
  "list_posts nc strict to_python s [] = Inr (queryset nc s)"
  by (simp add: list_posts_def filter_queryset_def clean_tags_def tags_filter_def chosen_def)

lemma forum_choices:
  "list_all (valid_choice forum_pk forum) [''1'']"
  "\<not> list_all (valid_choice forum_pk forum) [''django'']"
  "\<not> list_all (valid_choice forum_pk forum) [''9'']"
  by (simp_all add: valid_choice_def forum_pk_def forum_def forum_tags_def)

lemma forum_queryset:
  "map post_id (queryset NullsSmallest forum) = [3, 4, 1, 2]"
  by (simp add: queryset_def
      Post_objects_def order_by_def listing_order_def desc_def forum_def forum_post_def
      forum_tags_def replies_at_def latest_reply_time_def replies_def Max_submit_date_def)

lemma forum_listing:
  "map post_id (order_by (listing_order NullsSmallest forum)
      (filter (\<lambda>p. \<exists>v \<in> set [''1'']. \<exists>k \<in> set (tags p). forum_pk v = Some k) (Post_objects forum)))
    = [4, 1]"
  by (simp add: forum_pk_def
      Post_objects_def order_by_def listing_order_def desc_def forum_def forum_post_def
      forum_tags_def replies_at_def latest_reply_time_def replies_def Max_submit_date_def)

lemma forum_popular:
  "map post_id (popular visible NullsSmallest forum 130 130) = [1]"
  "map post_id (popular (\<lambda>p. True) NullsSmallest forum 130 130) = [4, 1]"
  by (simp_all add: popular_def popular_filter_def popular_order_def Post_public_def
      order_by_def desc_def forum_def forum_post_def visible_def
      forum_tags_def replies_at_def latest_reply_time_def replies_def Max_submit_date_def
      num_replies_def sql_gt_def sql_lt_def timedelta_days_def)

section \<open>Creating and updating: the tag checks\<close>


lemma resolve_loop_fail:
  "n \<in> set ns \<Longrightarrow> \<forall>tg. Tag_objects_get s n \<noteq> Inr tg
    \<Longrightarrow> resolve_loop s ns acc = Inl (ValidationError TagDoesNotExist)"
proof (induction ns arbitrary: acc)
  case Nil
  then show ?case by simp
next
  case (Cons m ns)
  show ?case
  proof (cases "Tag_objects_get s m")
    case (Inl e)
    then show ?thesis by simp
  next
    case (Inr tg)
    with Cons.prems have "n \<in> set ns" by auto
    with Cons.IH Cons.prems(2) Inr show ?thesis by simp
  qed
qed

lemma resolve_loop_ok:
  "\<forall>n \<in> set ns. \<exists>tg. Tag_objects_get s n = Inr tg
    \<Longrightarrow> \<exists>tgs. resolve_loop s ns acc = Inr (acc @ tgs)
          \<and> list_all2 (\<lambda>n tg. Tag_objects_get s n = Inr tg) ns tgs"
proof (induction ns arbitrary: acc)
  case Nil
  show ?case by simp
next
  case (Cons m ns)
  then obtain tg where tg: "Tag_objects_get s m = Inr tg" by auto
  from Cons.prems have "\<forall>n \<in> set ns. \<exists>tg. Tag_objects_get s n = Inr tg" by simp
  from Cons.IH [OF this, of "acc @ [tg]"] obtain tgs
    where "resolve_loop s ns (acc @ [tg]) = Inr ((acc @ [tg]) @ tgs)"
      and "list_all2 (\<lambda>n tg. Tag_objects_get s n = Inr tg) ns tgs" by blast
  with tg have "resolve_loop s (m # ns) acc = Inr (acc @ (tg # tgs))
      \<and> list_all2 (\<lambda>n tg. Tag_objects_get s n = Inr tg) (m # ns) (tg # tgs)" by simp
  then show ?case by blast
qed

lemma list_all2_resolved_set:
  "list_all2 (\<lambda>n tg. Tag_objects_get s n = Inr tg) ns tgs
    \<Longrightarrow> tag_id ` set tgs = {tag_id tg | tg n. n \<in> set ns \<and> Tag_objects_get s n = Inr tg}"
proof (induction rule: list_all2_induct)
  case Nil
  show ?case by simp
next
  case (Cons n ns tg tgs)
  then show ?case by (auto simp: image_iff)
qed

lemma Tag_objects_get_Inr:
  "Tag_objects_get s n = Inr tg \<Longrightarrow> tg \<in> set (tag_table s) \<and> tag_name tg = n"
proof -
  assume a: "Tag_objects_get s n = Inr tg"
  then have "filter (\<lambda>t. tag_name t = n) (tag_table s) = [tg]"
    by (auto simp: Tag_objects_get_def split: list.splits)
  then have "tg \<in> set (filter (\<lambda>t. tag_name t = n) (tag_table s))" by simp
  then show ?thesis by simp
qed

lemma perform_create_failure:
  "fst (perform_create t u d s) = Inl e \<Longrightarrow> snd (perform_create t u d s) = s"
  by (auto simp: perform_create_def split: option.splits if_splits sum.splits prod.splits)

lemma create_failure:
  "fst (create valid t u d s) = Inl e \<Longrightarrow> snd (create valid t u d s) = s"
  using perform_create_failure [of t u d s e] by (auto simp: create_def split: if_splits)

lemma perform_update_failure:
  "fst (perform_update d instance s) = Inl e \<Longrightarrow> snd (perform_update d instance s) = s"
  by (auto simp: perform_update_def split: option.splits list.splits sum.splits prod.splits)

lemma update_failure:
  "fst (update valid perm partial pk u d s) = Inl e
    \<Longrightarrow> snd (update valid perm partial pk u d s) = s"
  using perform_update_failure [of d _ s e]
  by (auto simp: update_def split: option.splits sum.splits if_splits)




lemma update_tag_check_cases:
  "update_tag_check partial None = (if partial then None else Some EmptyTagSelection)"
  "update_tag_check partial (Some (Names [])) = Some EmptyTagSelection"
  "3 < length ns \<Longrightarrow> update_tag_check partial (Some (Names ns)) = Some TooManyTags"
  "ns \<noteq> [] \<Longrightarrow> length ns \<le> 3 \<Longrightarrow> update_tag_check partial (Some (Names ns)) = None"
  by (auto simp: update_tag_check_def EmptyTagSelection_def TooManyTags_def)


lemma forum_tag_lookup:
  "Tag_objects_get forum ''django'' = Inr \<lparr>tag_id = 1, tag_name = ''django''\<rparr>"
  "Tag_objects_get forum ''rest'' = Inr \<lparr>tag_id = 3, tag_name = ''rest''\<rparr>"
  "Tag_objects_get forum ''ghost'' = Inl DoesNotExist"
  "Tag_objects_get forum ''phantom'' = Inl DoesNotExist"
  by (simp_all add: Tag_objects_get_def forum_def forum_tags_def)



lemma forum_get_object:
  "get_object author_only forum 1 7 = Inr (forum_post 1 False 10 [1])"
  "get_object author_only forum 99 7 = Inl Http404"
  by (simp_all add: get_object_def Post_objects_def forum_def forum_post_def author_only_def)

lemma forum_resolved:
  "{tag_id tg | tg n. n \<in> set [''rest'', ''django''] \<and> Tag_objects_get forum n = Inr tg} = {1, 3}"
  using list_all2_resolved_set [of forum "[''rest'', ''django'']"
      "[\<lparr>tag_id = 3, tag_name = ''rest''\<rparr>, \<lparr>tag_id = 1, tag_name = ''django''\<rparr>]"]
  by (simp add: forum_tag_lookup insert_commute)

section \<open>Updating: the order of the checks\<close>





lemma update_unknown_tag:
  assumes d: "d_tags d = Some (Names ns)" and n: "n \<in> set ns" "\<forall>tg. Tag_objects_get s n \<noteq> Inr tg"
  shows "perform_update d instance s = (Inl UnknownTag, s)"
proof -
  from n(1) obtain m ms where ns: "ns = m # ms" by (cases ns) auto
  have "resolve_loop s ns [] = Inl (ValidationError TagDoesNotExist)"
    using n by (rule resolve_loop_fail)
  with d ns show ?thesis by (simp add: perform_update_def UnknownTag_def)
qed


section \<open>Claims\<close>

text \<open>
  C1, as the claim states it, fails: the query set asks for no placing of NULL, so
  where the backend collates NULL above every value a post without replies comes before
  the posts with replies of the same pin status. In the example the post at index 1 has
  no reply, the post at index 3 has one, and neither is pinned.
\<close>

theorem listing_no_reply_not_last:
  "map post_id (queryset NullsLargest listing_example) = [1, 4, 5, 2, 3]
   \<and> pinned (queryset NullsLargest listing_example ! 1)
       = pinned (queryset NullsLargest listing_example ! 3)
   \<and> latest_reply_time listing_example (queryset NullsLargest listing_example ! 1) = None
   \<and> latest_reply_time listing_example (queryset NullsLargest listing_example ! 3) = Some 50"
  by (simp add: queryset_def Post_objects_def order_by_def listing_order_def desc_def
      listing_example_def latest_reply_time_def replies_def Max_submit_date_def)

text \<open>
  C1, amended. The general listing is a rearrangement of all posts in the composite
  order: a pinned post precedes every post that is not pinned; of two posts with the
  same pin status the one with the later latest reply precedes the other; a post
  without replies is placed, within its pin status, where the backend places NULL in a
  descending order, after the posts with replies where NULL collates below every value
  and before them where it collates above; and posts that agree on pin status and
  latest reply time are in descending order of creation time. In the scenario the
  listing is A, B, C, for either collation.
\<close>

theorem listing_composite_order:
  assumes "i < length (queryset nc s)" and "j < length (queryset nc s)"
  shows "mset (queryset nc s) = mset (Post_objects s)
    \<and> (pinned (queryset nc s ! i) \<and> \<not> pinned (queryset nc s ! j) \<longrightarrow> i < j)
    \<and> (pinned (queryset nc s ! i) = pinned (queryset nc s ! j)
        \<and> (\<exists>a b. latest_reply_time s (queryset nc s ! i) = Some a
              \<and> latest_reply_time s (queryset nc s ! j) = Some b \<and> b < a) \<longrightarrow> i < j)
    \<and> (nc = NullsSmallest \<and> pinned (queryset nc s ! i) = pinned (queryset nc s ! j)
        \<and> latest_reply_time s (queryset nc s ! i) \<noteq> None
        \<and> latest_reply_time s (queryset nc s ! j) = None \<longrightarrow> i < j)
    \<and> (nc = NullsLargest \<and> pinned (queryset nc s ! i) = pinned (queryset nc s ! j)
        \<and> latest_reply_time s (queryset nc s ! i) = None
        \<and> latest_reply_time s (queryset nc s ! j) \<noteq> None \<longrightarrow> i < j)
    \<and> (pinned (queryset nc s ! i) = pinned (queryset nc s ! j)
        \<and> latest_reply_time s (queryset nc s ! i) = latest_reply_time s (queryset nc s ! j)
        \<and> created_time (queryset nc s ! j) < created_time (queryset nc s ! i) \<longrightarrow> i < j)
    \<and> queryset nc (listing_scenario tb tc) = [scenario_A, scenario_B tb, scenario_C tc]"
proof -
  let ?L = "queryset nc s"
  note prec = queryset_precedes [OF assms]
  have 1: "mset ?L = mset (Post_objects s)"
    by (simp add: queryset_def mset_order_by)
  have 2: "pinned (?L ! i) \<and> \<not> pinned (?L ! j) \<longrightarrow> i < j"
    using prec listing_cmp_pinned by blast
  have 3: "pinned (?L ! i) = pinned (?L ! j)
        \<and> (\<exists>a b. latest_reply_time s (?L ! i) = Some a
              \<and> latest_reply_time s (?L ! j) = Some b \<and> b < a) \<longrightarrow> i < j"
    using prec listing_cmp_latest by blast
  have 4: "nc = NullsSmallest \<and> pinned (?L ! i) = pinned (?L ! j)
        \<and> latest_reply_time s (?L ! i) \<noteq> None
        \<and> latest_reply_time s (?L ! j) = None \<longrightarrow> i < j"
  proof (intro impI, elim conjE)
    assume h: "nc = NullsSmallest" "pinned (?L ! i) = pinned (?L ! j)"
      "latest_reply_time s (?L ! i) \<noteq> None" "latest_reply_time s (?L ! j) = None"
    from h(3) obtain a where "latest_reply_time s (?L ! i) = Some a" by blast
    then have "order_cmp (listing_order nc s) (?L ! i) (?L ! j) = Before"
      using h(1,2,4) listing_cmp_no_reply by blast
    then show "i < j" by (rule prec)
  qed
  have 5: "nc = NullsLargest \<and> pinned (?L ! i) = pinned (?L ! j)
        \<and> latest_reply_time s (?L ! i) = None
        \<and> latest_reply_time s (?L ! j) \<noteq> None \<longrightarrow> i < j"
  proof (intro impI, elim conjE)
    assume h: "nc = NullsLargest" "pinned (?L ! i) = pinned (?L ! j)"
      "latest_reply_time s (?L ! i) = None" "latest_reply_time s (?L ! j) \<noteq> None"
    from h(4) obtain b where "latest_reply_time s (?L ! j) = Some b" by blast
    then have "order_cmp (listing_order nc s) (?L ! i) (?L ! j) = Before"
      using h(1,2,3) listing_cmp_no_reply_first by blast
    then show "i < j" by (rule prec)
  qed
  have 6: "pinned (?L ! i) = pinned (?L ! j)
        \<and> latest_reply_time s (?L ! i) = latest_reply_time s (?L ! j)
        \<and> created_time (?L ! j) < created_time (?L ! i) \<longrightarrow> i < j"
    using prec listing_cmp_created by blast
  from 1 2 3 4 5 6 listing_scenario_eval show ?thesis by blast
qed

theorem listing_composite_order_witness:
  "map post_id (queryset NullsSmallest listing_example) = [1, 2, 3, 4, 5]
   \<and> (pinned (queryset NullsSmallest listing_example ! 0)
      \<and> \<not> pinned (queryset NullsSmallest listing_example ! 1) \<and> (0::nat) < 1)
   \<and> (latest_reply_time listing_example (queryset NullsSmallest listing_example ! 1) = Some 50
      \<and> latest_reply_time listing_example (queryset NullsSmallest listing_example ! 2) = Some 30
      \<and> (1::nat) < 2)
   \<and> (latest_reply_time listing_example (queryset NullsSmallest listing_example ! 2) \<noteq> None
      \<and> latest_reply_time listing_example (queryset NullsSmallest listing_example ! 3) = None
      \<and> (2::nat) < 3)
   \<and> (latest_reply_time listing_example (queryset NullsSmallest listing_example ! 3)
        = latest_reply_time listing_example (queryset NullsSmallest listing_example ! 4)
      \<and> created_time (queryset NullsSmallest listing_example ! 4)
        < created_time (queryset NullsSmallest listing_example ! 3)
      \<and> (3::nat) < 4)
   \<and> map post_id (queryset NullsLargest listing_example) = [1, 4, 5, 2, 3]
   \<and> (latest_reply_time listing_example (queryset NullsLargest listing_example ! 2) = None
      \<and> latest_reply_time listing_example (queryset NullsLargest listing_example ! 3) \<noteq> None
      \<and> (2::nat) < 3)"
proof -
  let ?L = "queryset NullsSmallest listing_example"
  let ?M = "queryset NullsLargest listing_example"
  have L: "?L =
        [\<lparr>post_id = 1, title = ''a'', body = [], pinned = True, created_time = 1, author = 1, tags = [1]\<rparr>,
         \<lparr>post_id = 2, title = ''b'', body = [], pinned = False, created_time = 6, author = 1, tags = [1]\<rparr>,
         \<lparr>post_id = 3, title = ''c'', body = [], pinned = False, created_time = 5, author = 1, tags = [1]\<rparr>,
         \<lparr>post_id = 4, title = ''d'', body = [], pinned = False, created_time = 20, author = 1, tags = [1]\<rparr>,
         \<lparr>post_id = 5, title = ''e'', body = [], pinned = False, created_time = 10, author = 1, tags = [1]\<rparr>]"
    by (simp add: queryset_def Post_objects_def order_by_def listing_order_def desc_def
      listing_example_def latest_reply_time_def replies_def Max_submit_date_def)
  have M: "?M =
        [\<lparr>post_id = 1, title = ''a'', body = [], pinned = True, created_time = 1, author = 1, tags = [1]\<rparr>,
         \<lparr>post_id = 4, title = ''d'', body = [], pinned = False, created_time = 20, author = 1, tags = [1]\<rparr>,
         \<lparr>post_id = 5, title = ''e'', body = [], pinned = False, created_time = 10, author = 1, tags = [1]\<rparr>,
         \<lparr>post_id = 2, title = ''b'', body = [], pinned = False, created_time = 6, author = 1, tags = [1]\<rparr>,
         \<lparr>post_id = 3, title = ''c'', body = [], pinned = False, created_time = 5, author = 1, tags = [1]\<rparr>]"
    by (simp add: queryset_def Post_objects_def order_by_def listing_order_def desc_def
      listing_example_def latest_reply_time_def replies_def Max_submit_date_def)
  have len: "(0::nat) < length ?L" "(1::nat) < length ?L" "(2::nat) < length ?L"
    "(3::nat) < length ?L" "(4::nat) < length ?L"
    by (simp_all add: L)
  have lenM: "(2::nat) < length ?M" "(3::nat) < length ?M"
    by (simp_all add: M)
  have lat: "latest_reply_time listing_example (?L ! 1) = Some 50"
    "latest_reply_time listing_example (?L ! 2) = Some 30"
    "latest_reply_time listing_example (?L ! 3) = None"
    "latest_reply_time listing_example (?L ! 4) = None"
    by (simp_all add: L)
      (simp_all add: listing_example_def latest_reply_time_def replies_def Max_submit_date_def)
  have latM: "latest_reply_time listing_example (?M ! 2) = None"
    "latest_reply_time listing_example (?M ! 3) = Some 50"
    by (simp_all add: M)
      (simp_all add: listing_example_def latest_reply_time_def replies_def Max_submit_date_def)
  have pin: "pinned (?L ! 0)" "\<not> pinned (?L ! 1)" "\<not> pinned (?L ! 2)"
    "\<not> pinned (?L ! 3)" "\<not> pinned (?L ! 4)"
    by (simp_all add: L)
  have pinM: "\<not> pinned (?M ! 2)" "\<not> pinned (?M ! 3)"
    by (simp_all add: M)
  have cre: "created_time (?L ! 4) < created_time (?L ! 3)"
    by (simp add: L)
  have ids: "map post_id ?L = [1, 2, 3, 4, 5]"
    by (simp add: L)
  have idsM: "map post_id ?M = [1, 4, 5, 2, 3]"
    by (simp add: M)
  have a: "(0::nat) < 1"
    using listing_composite_order [OF len(1) len(2), of 0 0] pin by blast
  have b: "(1::nat) < 2"
    using listing_composite_order [OF len(2) len(3), of 0 0] pin lat by simp
  have c: "(2::nat) < 3"
    using listing_composite_order [OF len(3) len(4), of 0 0] pin lat by simp
  have d: "(3::nat) < 4"
    using listing_composite_order [OF len(4) len(5), of 0 0] pin lat cre by simp
  have e: "(2::nat) < 3"
    using listing_composite_order [OF lenM(1) lenM(2), of 0 0] pinM latM by simp
  from ids idsM pin lat latM cre a b c d e show ?thesis by simp
qed

text \<open>
  C2. A post is in the result of \<open>popular\<close> only if it has at least one reply and its
  latest reply time lies strictly between the lower bound, 48 hours before the clock
  reading, and the clock reading. A post without replies is left out, a post all of
  whose replies are 48 hours old or older is left out, and a post whose latest reply is
  at the clock reading or later is left out.
\<close>

theorem popular_recency_filter:
  "(p \<in> set (popular public nc s now1 now2) \<longrightarrow>
      0 < num_replies s p
      \<and> (\<exists>l. latest_reply_time s p = Some l \<and> now1 - timedelta_days 2 < l \<and> l < now2))
   \<and> (num_replies s p = 0 \<longrightarrow> p \<notin> set (popular public nc s now1 now2))
   \<and> ((\<forall>r \<in> set (replies s p). submit_date r \<le> now1 - timedelta_days 2)
        \<longrightarrow> p \<notin> set (popular public nc s now1 now2))
   \<and> ((\<exists>l. latest_reply_time s p = Some l \<and> now2 \<le> l)
        \<longrightarrow> p \<notin> set (popular public nc s now1 now2))
   \<and> timedelta_days 2 = 48 * 3600 * 1000000"
proof -
  have in_pop: "0 < num_replies s p
      \<and> (\<exists>l. latest_reply_time s p = Some l \<and> now1 - timedelta_days 2 < l \<and> l < now2)"
    if "p \<in> set (popular public nc s now1 now2)"
    using that set_popular_subset [of public nc s now1 now2] popular_filter_iff [of s now1 now2 p]
    by blast
  have 2: "num_replies s p = 0 \<longrightarrow> p \<notin> set (popular public nc s now1 now2)"
    using in_pop by auto
  have 3: "(\<forall>r \<in> set (replies s p). submit_date r \<le> now1 - timedelta_days 2)
        \<longrightarrow> p \<notin> set (popular public nc s now1 now2)"
  proof (intro impI notI)
    assume old: "\<forall>r \<in> set (replies s p). submit_date r \<le> now1 - timedelta_days 2"
      and "p \<in> set (popular public nc s now1 now2)"
    then obtain l where l: "latest_reply_time s p = Some l" "now1 - timedelta_days 2 < l"
      using in_pop by blast
    from latest_reply_time_Some [OF l(1)] obtain r
      where "r \<in> set (replies s p)" "submit_date r = l" by blast
    with old l(2) show False by auto
  qed
  have 4: "(\<exists>l. latest_reply_time s p = Some l \<and> now2 \<le> l)
        \<longrightarrow> p \<notin> set (popular public nc s now1 now2)"
    using in_pop by auto
  have 5: "timedelta_days 2 = 48 * 3600 * 1000000"
    by (simp add: timedelta_days_def)
  from in_pop 2 3 4 5 show ?thesis by blast
qed

theorem popular_recency_filter_witness:
  "scenario_X \<in> set (popular (\<lambda>p. True) NullsSmallest (popular_scenario 1000000000000) 1000000000000 1000000000000)
   \<and> 0 < num_replies (popular_scenario 1000000000000) scenario_X
   \<and> (\<exists>l. latest_reply_time (popular_scenario 1000000000000) scenario_X = Some l
        \<and> 1000000000000 - timedelta_days 2 < l \<and> l < 1000000000000)
   \<and> latest_reply_time (popular_scenario 1000000000000) scenario_Z
        = Some (1000000000000 - timedelta_days 3)
   \<and> scenario_Z \<notin> set (popular (\<lambda>p. True) NullsSmallest (popular_scenario 1000000000000) 1000000000000 1000000000000)"
proof -
  have x: "scenario_X \<in> set (popular (\<lambda>p. True) NullsSmallest (popular_scenario 1000000000000) 1000000000000 1000000000000)"
    by (simp add: popular_scenario_eval)
  have z: "\<forall>r \<in> set (replies (popular_scenario 1000000000000) scenario_Z).
        submit_date r \<le> 1000000000000 - timedelta_days 2"
    by (simp add: popular_scenario_def scenario_Z_def replies_at_def hours_def replies_def
        timedelta_days_def)
  from x z popular_scenario_aggregates(6) [of 1000000000000]
    popular_recency_filter [of scenario_X "\<lambda>p. True" NullsSmallest "popular_scenario 1000000000000"
      1000000000000 1000000000000]
    popular_recency_filter [of scenario_Z "\<lambda>p. True" NullsSmallest "popular_scenario 1000000000000"
      1000000000000 1000000000000]
  show ?thesis by blast
qed

text \<open>
  C3. The result of \<open>popular\<close> has at most ten posts and is in the order of descending
  number of replies, then descending latest reply time: a post with more replies
  precedes one with fewer, and of two posts with the same number of replies the one with
  the later latest reply precedes the other. The posts returned are the first of that
  order: no eligible post that is left out outranks a returned one. In the scenario the
  result is X, Y.
\<close>

theorem popular_ranking:
  assumes "i < length (popular public nc s now1 now2)"
    and "j < length (popular public nc s now1 now2)"
  shows "length (popular public nc s now1 now2) \<le> 10
    \<and> (num_replies s (popular public nc s now1 now2 ! j)
          < num_replies s (popular public nc s now1 now2 ! i) \<longrightarrow> i < j)
    \<and> (num_replies s (popular public nc s now1 now2 ! i)
          = num_replies s (popular public nc s now1 now2 ! j)
        \<and> (\<exists>a b. latest_reply_time s (popular public nc s now1 now2 ! i) = Some a
              \<and> latest_reply_time s (popular public nc s now1 now2 ! j) = Some b \<and> b < a)
        \<longrightarrow> i < j)
    \<and> (e \<in> set (Post_public public s) \<and> popular_filter s now1 now2 e
        \<and> e \<notin> set (popular public nc s now1 now2)
        \<longrightarrow> num_replies s e \<le> num_replies s (popular public nc s now1 now2 ! i))
    \<and> popular (\<lambda>p. True) nc (popular_scenario now) now now = [scenario_X, scenario_Y]"
proof -
  let ?P = "popular public nc s now1 now2"
  note prec = popular_precedes [OF assms]
  have 1: "length ?P \<le> 10" by (simp add: popular_def)
  have 2: "num_replies s (?P ! j) < num_replies s (?P ! i) \<longrightarrow> i < j"
    using prec popular_cmp_count by blast
  have 3: "num_replies s (?P ! i) = num_replies s (?P ! j)
        \<and> (\<exists>a b. latest_reply_time s (?P ! i) = Some a
              \<and> latest_reply_time s (?P ! j) = Some b \<and> b < a) \<longrightarrow> i < j"
    using prec popular_cmp_latest by blast
  have 4: "e \<in> set (Post_public public s) \<and> popular_filter s now1 now2 e \<and> e \<notin> set ?P
        \<longrightarrow> num_replies s e \<le> num_replies s (?P ! i)"
  proof (intro impI, elim conjE)
    assume "e \<in> set (Post_public public s)" "popular_filter s now1 now2 e" "e \<notin> set ?P"
    with assms(1) have "order_cmp (popular_order nc s) e (?P ! i) \<noteq> Before"
      by (rule popular_top)
    then show "num_replies s e \<le> num_replies s (?P ! i)"
      using popular_cmp_count [of s "?P ! i" e nc] by (meson not_le)
  qed
  from 1 2 3 4 popular_scenario_eval show ?thesis by blast
qed

theorem popular_ranking_witness:
  "(0::nat) < length (popular (\<lambda>p. True) NullsSmallest (popular_scenario 0) 0 0)
   \<and> (1::nat) < length (popular (\<lambda>p. True) NullsSmallest (popular_scenario 0) 0 0)
   \<and> num_replies (popular_scenario 0) (popular (\<lambda>p. True) NullsSmallest (popular_scenario 0) 0 0 ! 1)
      < num_replies (popular_scenario 0) (popular (\<lambda>p. True) NullsSmallest (popular_scenario 0) 0 0 ! 0)
   \<and> length (popular (\<lambda>p. True) NullsSmallest (popular_scenario 0) 0 0) \<le> 10
   \<and> (0::nat) < 1
   \<and> popular (\<lambda>p. True) NullsSmallest (popular_scenario 0) 0 0 = [scenario_X, scenario_Y]"
proof -
  have P: "popular (\<lambda>p. True) NullsSmallest (popular_scenario 0) 0 0 = [scenario_X, scenario_Y]"
    by (rule popular_scenario_eval)
  have i: "(0::nat) < length (popular (\<lambda>p. True) NullsSmallest (popular_scenario 0) 0 0)"
    and j: "(1::nat) < length (popular (\<lambda>p. True) NullsSmallest (popular_scenario 0) 0 0)"
    by (simp_all add: P)
  have n: "num_replies (popular_scenario 0) (popular (\<lambda>p. True) NullsSmallest (popular_scenario 0) 0 0 ! 1)
      < num_replies (popular_scenario 0) (popular (\<lambda>p. True) NullsSmallest (popular_scenario 0) 0 0 ! 0)"
    by (simp add: P popular_scenario_aggregates)
  from popular_ranking [OF i j, of scenario_Z 0] i j n P show ?thesis by simp
qed

text \<open>
  C8, as the claim states it, fails: the values of the tag filter are read as keys of
  tags, not as names. In the example the post with key 1 has the tag named django, and
  a listing request with the filter value django does not return it: the request is
  refused, or answered with no post, depending on the strictness of the filter.
\<close>

theorem listing_by_tag_name_fails:
  "Tag_objects_get forum ''django'' = Inr \<lparr>tag_id = 1, tag_name = ''django''\<rparr>
   \<and> forum_post 1 False 10 [1] \<in> set (post_table forum)
   \<and> tags (forum_post 1 False 10 [1]) = [1]
   \<and> forum_pk ''django'' = None
   \<and> list_posts NullsSmallest RaiseValidationError forum_pk forum [''django'']
       = Inl (ValidationError FilterErrors)
   \<and> list_posts NullsSmallest ReturnNoResults forum_pk forum [''django''] = Inr []"
  by (simp add: list_posts_def filter_queryset_def clean_tags_def valid_choice_def
      forum_pk_def forum_tag_lookup)
    (simp add: forum_def forum_post_def)

text \<open>
  C8, amended. The values of the tag filter of a listing request are keys of tags. When
  every value is the key of an existing tag, the result is the listing order applied to
  exactly the posts associated with at least one of these tags, each as often as it is
  in the table. When some value is not the key of an existing tag, as a tag name is,
  no post is selected: the request is refused with a validation error or answered with
  the empty list, as the filter is set up. A request with no filter value gets the
  listing of all posts.
\<close>

theorem list_posts_tag_filter:
  "(vs \<noteq> [] \<and> list_all (valid_choice to_python s) vs \<longrightarrow>
      list_posts nc strict to_python s vs
        = Inr (order_by (listing_order nc s)
            (filter (\<lambda>p. \<exists>v \<in> set vs. \<exists>k \<in> set (tags p). to_python v = Some k)
               (Post_objects s)))
      \<and> mset (order_by (listing_order nc s)
            (filter (\<lambda>p. \<exists>v \<in> set vs. \<exists>k \<in> set (tags p). to_python v = Some k)
               (Post_objects s)))
        = filter_mset (\<lambda>p. \<exists>v \<in> set vs. \<exists>k \<in> set (tags p). to_python v = Some k)
            (mset (Post_objects s)))
   \<and> (\<not> list_all (valid_choice to_python s) vs \<longrightarrow>
        list_posts nc RaiseValidationError to_python s vs = Inl (ValidationError FilterErrors)
        \<and> list_posts nc ReturnNoResults to_python s vs = Inr [])
   \<and> (valid_choice to_python s v \<longleftrightarrow>
        (\<exists>t \<in> set (tag_table s). to_python v = Some (tag_id t)))
   \<and> list_posts nc strict to_python s [] = Inr (queryset nc s)
   \<and> mset (queryset nc s) = mset (Post_objects s)"
proof -
  have 1: "list_posts nc strict to_python s vs
        = Inr (order_by (listing_order nc s)
            (filter (\<lambda>p. \<exists>v \<in> set vs. \<exists>k \<in> set (tags p). to_python v = Some k)
               (Post_objects s)))"
    if "vs \<noteq> [] \<and> list_all (valid_choice to_python s) vs"
    using that list_posts_valid [of to_python s vs nc strict] by blast
  have 2: "mset (order_by (listing_order nc s)
            (filter (\<lambda>p. \<exists>v \<in> set vs. \<exists>k \<in> set (tags p). to_python v = Some k)
               (Post_objects s)))
        = filter_mset (\<lambda>p. \<exists>v \<in> set vs. \<exists>k \<in> set (tags p). to_python v = Some k)
            (mset (Post_objects s))"
    by (simp add: mset_order_by)
  have 3: "list_posts nc RaiseValidationError to_python s vs = Inl (ValidationError FilterErrors)
        \<and> list_posts nc ReturnNoResults to_python s vs = Inr []"
    if "\<not> list_all (valid_choice to_python s) vs"
    using that list_posts_invalid [of to_python s vs nc] by blast
  have 4: "valid_choice to_python s v \<longleftrightarrow>
        (\<exists>t \<in> set (tag_table s). to_python v = Some (tag_id t))"
    by (auto simp: valid_choice_def split: option.splits)
  have 5: "list_posts nc strict to_python s [] = Inr (queryset nc s)"
    by (rule list_posts_no_filter)
  have 6: "mset (queryset nc s) = mset (Post_objects s)"
    by (simp add: queryset_def mset_order_by)
  from 1 2 3 4 5 6 show ?thesis by blast
qed

theorem list_posts_tag_filter_witness:
  "list_all (valid_choice forum_pk forum) [''1'']
   \<and> (\<exists>L. list_posts NullsSmallest RaiseValidationError forum_pk forum [''1''] = Inr L
          \<and> map post_id L = [4, 1])
   \<and> \<not> list_all (valid_choice forum_pk forum) [''9'']
   \<and> list_posts NullsSmallest RaiseValidationError forum_pk forum [''9'']
       = Inl (ValidationError FilterErrors)
   \<and> list_posts NullsSmallest ReturnNoResults forum_pk forum [''9''] = Inr []
   \<and> list_posts NullsSmallest RaiseValidationError forum_pk forum [] = Inr (queryset NullsSmallest forum)
   \<and> map post_id (queryset NullsSmallest forum) = [3, 4, 1, 2]"
proof -
  have ne: "[''1''] \<noteq> ([] :: string list)" by simp
  from list_posts_tag_filter [of "[''1'']" forum_pk forum NullsSmallest RaiseValidationError "''1''"]
    list_posts_tag_filter [of "[''9'']" forum_pk forum NullsSmallest RaiseValidationError "''9''"]
    ne forum_choices forum_listing forum_queryset
  show ?thesis by simp
qed

text \<open>
  C9. \<open>popular\<close> takes its candidates from \<^verbatim>\<open>Post.public\<close> only, the listing and the
  detail view from \<^verbatim>\<open>Post.objects\<close>: a post that is not publicly visible is never in
  the result of \<open>popular\<close>, while every post of the table, visible or not, is in the
  general listing and is found by the detail view.
\<close>

theorem popular_public_only:
  "(\<not> public p \<longrightarrow> p \<notin> set (popular public nc s now1 now2))
   \<and> (p \<in> set (post_table s) \<longrightarrow>
        list_posts nc strict to_python s [] = Inr (queryset nc s)
        \<and> p \<in> set (queryset nc s)
        \<and> retrieve perm s (post_id p) u \<noteq> Inl Http404)"
proof -
  have 1: "\<not> public p \<longrightarrow> p \<notin> set (popular public nc s now1 now2)"
    using set_popular_subset [of public nc s now1 now2] by blast
  have 2: "list_posts nc strict to_python s [] = Inr (queryset nc s)
      \<and> p \<in> set (queryset nc s) \<and> retrieve perm s (post_id p) u \<noteq> Inl Http404"
    if "p \<in> set (post_table s)"
  proof (intro conjI)
    show "list_posts nc strict to_python s [] = Inr (queryset nc s)"
      by (rule list_posts_no_filter)
    show "p \<in> set (queryset nc s)"
      using that by (simp add: queryset_def set_order_by Post_objects_def)
    have "find (\<lambda>q. post_id q = post_id p) (post_table s) \<noteq> None"
      using that by (auto simp: find_None_iff)
    then show "retrieve perm s (post_id p) u \<noteq> Inl Http404"
      by (auto simp: retrieve_def get_object_def Post_objects_def split: option.splits)
  qed
  from 1 2 show ?thesis by blast
qed

theorem popular_public_only_witness:
  "\<not> visible (forum_post 4 False 40 [1, 2])
   \<and> forum_post 4 False 40 [1, 2] \<in> set (post_table forum)
   \<and> forum_post 4 False 40 [1, 2] \<notin> set (popular visible NullsSmallest forum 130 130)
   \<and> list_posts NullsSmallest RaiseValidationError forum_pk forum []
       = Inr (queryset NullsSmallest forum)
   \<and> forum_post 4 False 40 [1, 2] \<in> set (queryset NullsSmallest forum)
   \<and> retrieve (\<lambda>u p. True) forum 4 0 \<noteq> Inl Http404
   \<and> map post_id (popular visible NullsSmallest forum 130 130) = [1]
   \<and> map post_id (popular (\<lambda>p. True) NullsSmallest forum 130 130) = [4, 1]"
proof -
  have h: "\<not> visible (forum_post 4 False 40 [1, 2])"
    by (simp add: visible_def forum_post_def)
  have m: "forum_post 4 False 40 [1, 2] \<in> set (post_table forum)"
    by (simp add: forum_def)
  have k: "post_id (forum_post 4 False 40 [1, 2]) = 4" by (simp add: forum_post_def)
  from popular_public_only [of visible "forum_post 4 False 40 [1, 2]" NullsSmallest forum 130 130
      RaiseValidationError forum_pk "\<lambda>u p. True" 0] h m k forum_popular
  show ?thesis by simp
qed

text \<open>
  C4, as the claim states it, fails in two ways. \<open>create\<close> validates the body with the
  serializer before it looks at the tags, so a body without tags that the serializer
  rejects gets the errors of the serializer, not \<open>EmptyTagSelection\<close>. And the tag
  checks count the items of whatever value the tags key holds: the name of an existing
  tag given as a string, not in a list, is counted by its characters and gets
  \<open>TooManyTags\<close>, though one name is supplied and it resolves.
\<close>

theorem create_checks_serializer_first:
  "d_tags untitled = None
   \<and> create title_required 50 7 untitled forum = (Inl (ValidationError SerializerErrors), forum)
   \<and> ValidationError SerializerErrors \<noteq> EmptyTagSelection
   \<and> Tag_objects_get forum ''django'' = Inr \<lparr>tag_id = 1, tag_name = ''django''\<rparr>
   \<and> create accept 50 7 (body_with_tags (Some (Text ''django''))) forum = (Inl TooManyTags, forum)"
  by (simp add: create_def perform_create_def title_required_def untitled_def accept_def
      body_with_tags_def EmptyTagSelection_def TooManyTags_def forum_tag_lookup)

text \<open>
  C4, amended. A create request whose body the serializer rejects fails with the errors
  of the serializer, whatever its tags. When the serializer accepts the body: \<open>create\<close>
  fails with \<open>EmptyTagSelection\<close> when the tags key is missing, null or an empty list,
  with \<open>TooManyTags\<close> when it is a list of more than three names, and with \<open>UnknownTag\<close>
  when it is a list of one to three names one of which does not resolve to a tag; each
  time the store is left as it was. When it is a list of one to three names that all
  resolve, one new post is stored whose tags are exactly the tags the names resolve to,
  whose author is the requesting user and whose creation time is the clock reading.
\<close>

theorem create_tag_rules:
  "(\<not> valid False d \<longrightarrow> create valid t u d s = (Inl (ValidationError SerializerErrors), s))
   \<and> (valid False d \<and> (d_tags d = None \<or> d_tags d = Some (Names [])) \<longrightarrow>
      create valid t u d s = (Inl EmptyTagSelection, s))
   \<and> (valid False d \<and> d_tags d = Some (Names ns) \<and> 3 < length ns \<longrightarrow>
      create valid t u d s = (Inl TooManyTags, s))
   \<and> (valid False d \<and> d_tags d = Some (Names ns) \<and> ns \<noteq> [] \<and> length ns \<le> 3
        \<and> (\<exists>n \<in> set ns. \<forall>tg. Tag_objects_get s n \<noteq> Inr tg) \<longrightarrow>
      create valid t u d s = (Inl UnknownTag, s))
   \<and> (valid False d \<and> d_tags d = Some (Names ns) \<and> ns \<noteq> [] \<and> length ns \<le> 3
        \<and> (\<forall>n \<in> set ns. \<exists>tg. Tag_objects_get s n = Inr tg) \<longrightarrow>
      (\<exists>p. create valid t u d s = (Inr p, s\<lparr>post_table := post_table s @ [p]\<rparr>)
         \<and> author p = u \<and> created_time p = t
         \<and> set (tags p) = {tag_id tg | tg n. n \<in> set ns \<and> Tag_objects_get s n = Inr tg}))
   \<and> (valid False d \<longrightarrow> create valid t u d s = perform_create t u d s)"
proof -
  have 0: "create valid t u d s = (Inl (ValidationError SerializerErrors), s)"
    if "\<not> valid False d"
    using that by (simp add: create_def)
  have c: "create valid t u d s = perform_create t u d s" if "valid False d"
    using that by (simp add: create_def)
  have 1: "create valid t u d s = (Inl EmptyTagSelection, s)"
    if "valid False d \<and> (d_tags d = None \<or> d_tags d = Some (Names []))"
    using that by (auto simp: c perform_create_def EmptyTagSelection_def)
  have 2: "create valid t u d s = (Inl TooManyTags, s)"
    if "valid False d \<and> d_tags d = Some (Names ns) \<and> 3 < length ns"
    using that by (auto simp: c perform_create_def TooManyTags_def)
  have 3: "create valid t u d s = (Inl UnknownTag, s)"
    if h: "valid False d \<and> d_tags d = Some (Names ns) \<and> ns \<noteq> [] \<and> length ns \<le> 3
        \<and> (\<exists>n \<in> set ns. \<forall>tg. Tag_objects_get s n \<noteq> Inr tg)"
  proof -
    from h obtain n where "n \<in> set ns" "\<forall>tg. Tag_objects_get s n \<noteq> Inr tg" by blast
    then have "resolve_loop s ns [] = Inl (ValidationError TagDoesNotExist)"
      by (rule resolve_loop_fail)
    with h show ?thesis by (simp add: c perform_create_def UnknownTag_def)
  qed
  have 4: "\<exists>p. create valid t u d s = (Inr p, s\<lparr>post_table := post_table s @ [p]\<rparr>)
         \<and> author p = u \<and> created_time p = t
         \<and> set (tags p) = {tag_id tg | tg n. n \<in> set ns \<and> Tag_objects_get s n = Inr tg}"
    if h: "valid False d \<and> d_tags d = Some (Names ns) \<and> ns \<noteq> [] \<and> length ns \<le> 3
        \<and> (\<forall>n \<in> set ns. \<exists>tg. Tag_objects_get s n = Inr tg)"
  proof -
    from h have "\<forall>n \<in> set ns. \<exists>tg. Tag_objects_get s n = Inr tg" by simp
    from resolve_loop_ok [OF this, of "[]"] obtain tgs
      where r: "resolve_loop s ns [] = Inr tgs"
        and a: "list_all2 (\<lambda>n tg. Tag_objects_get s n = Inr tg) ns tgs" by auto
    have "tag_id ` set tgs = {tag_id tg | tg n. n \<in> set ns \<and> Tag_objects_get s n = Inr tg}"
      using a by (rule list_all2_resolved_set)
    with h r show ?thesis
      by (simp add: c perform_create_def save_new_def Let_def)
  qed
  from 0 1 2 3 4 c show ?thesis by blast
qed

theorem create_tag_rules_witness:
  "\<not> title_required False untitled
   \<and> create title_required 50 7 untitled forum = (Inl (ValidationError SerializerErrors), forum)
   \<and> create accept 50 7 (body_with_tags None) forum = (Inl EmptyTagSelection, forum)
   \<and> create accept 50 7 (body_with_tags (Some (Names []))) forum = (Inl EmptyTagSelection, forum)
   \<and> create accept 50 7 (body_with_tags (Some (Names [''django'', ''python'', ''rest'', ''django''])))
        forum = (Inl TooManyTags, forum)
   \<and> create accept 50 7 (body_with_tags (Some (Names [''django'', ''ghost'']))) forum
       = (Inl UnknownTag, forum)
   \<and> (\<exists>p. create accept 50 7 (body_with_tags (Some (Names [''rest'', ''django'']))) forum
          = (Inr p, forum\<lparr>post_table := post_table forum @ [p]\<rparr>)
        \<and> author p = 7 \<and> created_time p = 50 \<and> set (tags p) = {1, 3})
   \<and> create accept 50 7 (body_with_tags (Some (Names [''rest'', ''django'']))) forum
       = perform_create 50 7 (body_with_tags (Some (Names [''rest'', ''django'']))) forum"
proof -
  have v: "accept False x" for x by (simp add: accept_def)
  have r: "\<not> title_required False untitled" by (simp add: title_required_def untitled_def)
  have z: "create title_required 50 7 untitled forum
      = (Inl (ValidationError SerializerErrors), forum)"
    using create_tag_rules [of title_required untitled 50 7 forum "[]"] r by simp
  have a: "create accept 50 7 (body_with_tags None) forum = (Inl EmptyTagSelection, forum)"
    using create_tag_rules [of accept "body_with_tags None" 50 7 forum "[]"] v
    by (simp add: body_with_tags_def)
  have b: "create accept 50 7 (body_with_tags (Some (Names []))) forum
      = (Inl EmptyTagSelection, forum)"
    using create_tag_rules [of accept "body_with_tags (Some (Names []))" 50 7 forum "[]"] v
    by (simp add: body_with_tags_def)
  have c: "create accept 50 7
        (body_with_tags (Some (Names [''django'', ''python'', ''rest'', ''django''])))
        forum = (Inl TooManyTags, forum)"
    using create_tag_rules [of accept
        "body_with_tags (Some (Names [''django'', ''python'', ''rest'', ''django'']))"
        50 7 forum "[''django'', ''python'', ''rest'', ''django'']"] v
    by (simp add: body_with_tags_def)
  have d: "create accept 50 7 (body_with_tags (Some (Names [''django'', ''ghost'']))) forum
       = (Inl UnknownTag, forum)"
    using create_tag_rules [of accept "body_with_tags (Some (Names [''django'', ''ghost'']))"
        50 7 forum "[''django'', ''ghost'']"] v
    by (simp add: body_with_tags_def forum_tag_lookup)
  have e: "\<exists>p. create accept 50 7 (body_with_tags (Some (Names [''rest'', ''django'']))) forum
          = (Inr p, forum\<lparr>post_table := post_table forum @ [p]\<rparr>)
        \<and> author p = 7 \<and> created_time p = 50 \<and> set (tags p) = {1, 3}"
    using create_tag_rules [of accept "body_with_tags (Some (Names [''rest'', ''django'']))"
        50 7 forum "[''rest'', ''django'']"] forum_resolved v
    by (auto simp: body_with_tags_def forum_tag_lookup)
  have f: "create accept 50 7 (body_with_tags (Some (Names [''rest'', ''django'']))) forum
       = perform_create 50 7 (body_with_tags (Some (Names [''rest'', ''django'']))) forum"
    using create_tag_rules [of accept "body_with_tags (Some (Names [''rest'', ''django'']))"
        50 7 forum "[''rest'', ''django'']"] v
    by simp
  from r z a b c d e f show ?thesis by blast
qed



text \<open>
  C6. When \<open>create\<close> or \<open>update\<close> fails with one of the three tag errors, the store
  after the call is the store before it: the checks and the lookups of the tags all
  come before the one call of \<^verbatim>\<open>serializer.save\<close>.
\<close>

theorem tag_failure_writes_nothing:
  "(fst (create valid t u d s) \<in> {Inl EmptyTagSelection, Inl TooManyTags, Inl UnknownTag}
      \<longrightarrow> snd (create valid t u d s) = s)
   \<and> (fst (update valid perm partial pk u d s)
        \<in> {Inl EmptyTagSelection, Inl TooManyTags, Inl UnknownTag}
      \<longrightarrow> snd (update valid perm partial pk u d s) = s)"
  using create_failure [of valid t u d s] update_failure [of valid perm partial pk u d s]
  by blast

theorem tag_failure_writes_nothing_witness:
  "fst (create accept 50 7 (body_with_tags (Some (Names [''django'', ''ghost'']))) forum) = Inl UnknownTag
   \<and> snd (create accept 50 7 (body_with_tags (Some (Names [''django'', ''ghost'']))) forum) = forum
   \<and> fst (update accept author_only False 1 7 (body_with_tags (Some (Names [''django'', ''ghost'']))) forum)
       = Inl UnknownTag
   \<and> snd (update accept author_only False 1 7 (body_with_tags (Some (Names [''django'', ''ghost'']))) forum)
       = forum
   \<and> fst (update accept author_only False 1 7 (body_with_tags None) forum) = Inl EmptyTagSelection
   \<and> snd (update accept author_only False 1 7 (body_with_tags None) forum) = forum"
proof -
  have a: "fst (create accept 50 7 (body_with_tags (Some (Names [''django'', ''ghost'']))) forum)
      = Inl UnknownTag"
    by (simp add: create_def accept_def perform_create_def body_with_tags_def forum_tag_lookup
        UnknownTag_def)
  have b: "fst (update accept author_only False 1 7
        (body_with_tags (Some (Names [''django'', ''ghost'']))) forum) = Inl UnknownTag"
    using forum_get_object(1)
    by (simp add: update_def update_tag_check_def accept_def perform_update_def
        body_with_tags_def forum_tag_lookup UnknownTag_def)
  have c: "fst (update accept author_only False 1 7 (body_with_tags None) forum)
      = Inl EmptyTagSelection"
    by (simp add: update_def update_tag_check_def body_with_tags_def EmptyTagSelection_def)
  from a b c
    tag_failure_writes_nothing [of accept 50 7 "body_with_tags (Some (Names [''django'', ''ghost'']))" forum
      author_only False 1]
    tag_failure_writes_nothing [of accept 50 7 "body_with_tags None" forum author_only False 1]
  show ?thesis by simp
qed

text \<open>
  C7, as the claim states it, fails: the error raised for a name that does not resolve
  is the fixed dictionary of lines 82 and 122, the same for every name. Two requests
  that differ only in the missing name get the same error.
\<close>

theorem unknown_tag_error_is_anonymous:
  "fst (perform_create 50 7 (body_with_tags (Some (Names [''ghost'']))) forum)
     = Inl (ValidationError TagDoesNotExist)
   \<and> fst (perform_create 50 7 (body_with_tags (Some (Names [''phantom'']))) forum)
     = Inl (ValidationError TagDoesNotExist)
   \<and> fst (perform_update (body_with_tags (Some (Names [''ghost'']))) (forum_post 1 False 10 [1]) forum)
     = fst (perform_update (body_with_tags (Some (Names [''phantom'']))) (forum_post 1 False 10 [1]) forum)
   \<and> ''ghost'' \<noteq> ''phantom''"
  by (simp add: perform_create_def perform_update_def body_with_tags_def forum_tag_lookup)

text \<open>
  C7, amended. When a supplied name has no matching tag, \<open>perform_create\<close> (given one to
  three names) and \<open>perform_update\<close> fail with \<open>UnknownTag\<close>, the fixed validation error
  of the tags field, and leave the store as it was; so do \<open>create\<close> and \<open>update\<close>
  once the earlier steps have passed. The loop stops at the first such name, whatever
  names follow it. The error does not depend on the name.
\<close>

theorem unknown_tag_fails_without_name:
  assumes "d_tags d = Some (Names ns)" and "n \<in> set ns"
    and "\<forall>tg. Tag_objects_get s n \<noteq> Inr tg"
  shows "(length ns \<le> 3 \<longrightarrow> perform_create t u d s = (Inl UnknownTag, s))
    \<and> perform_update d inst s = (Inl UnknownTag, s)
    \<and> (length ns \<le> 3 \<and> valid False d \<longrightarrow> create valid t u d s = (Inl UnknownTag, s))
    \<and> (length ns \<le> 3 \<and> get_object perm s pk u = Inr inst \<and> valid partial d \<longrightarrow>
         update valid perm partial pk u d s = (Inl UnknownTag, s))
    \<and> resolve_loop s (pre @ n # rest) [] = Inl UnknownTag
    \<and> UnknownTag = ValidationError TagDoesNotExist"
proof -
  have ne: "ns \<noteq> []" using assms(2) by auto
  have r: "resolve_loop s ns [] = Inl (ValidationError TagDoesNotExist)"
    using assms(2,3) by (rule resolve_loop_fail)
  have 1: "perform_create t u d s = (Inl UnknownTag, s)" if "length ns \<le> 3"
    using that assms(1) ne r by (simp add: perform_create_def UnknownTag_def)
  have 2: "perform_update d inst s = (Inl UnknownTag, s)"
    using assms by (rule update_unknown_tag)
  have 3: "create valid t u d s = (Inl UnknownTag, s)" if "length ns \<le> 3 \<and> valid False d"
    using that 1 by (simp add: create_def)
  have 4: "update valid perm partial pk u d s = (Inl UnknownTag, s)"
    if "length ns \<le> 3 \<and> get_object perm s pk u = Inr inst \<and> valid partial d"
    using that 2 assms(1) ne update_tag_check_cases(4) [of ns partial]
    by (simp add: update_def)
  have 5: "resolve_loop s (pre @ n # rest) [] = Inl UnknownTag"
    using resolve_loop_fail [of n "pre @ n # rest" s "[]"] assms(3)
    by (simp add: UnknownTag_def)
  have 6: "UnknownTag = ValidationError TagDoesNotExist" by (simp add: UnknownTag_def)
  from 1 2 3 4 5 6 show ?thesis by blast
qed

theorem unknown_tag_fails_without_name_witness:
  "d_tags (body_with_tags (Some (Names [''django'', ''ghost'', ''rest''])))
     = Some (Names [''django'', ''ghost'', ''rest''])
   \<and> Tag_objects_get forum ''ghost'' = Inl DoesNotExist
   \<and> perform_create 50 7 (body_with_tags (Some (Names [''django'', ''ghost'', ''rest'']))) forum
       = (Inl UnknownTag, forum)
   \<and> perform_update (body_with_tags (Some (Names [''django'', ''ghost'', ''rest''])))
        (forum_post 1 False 10 [1]) forum = (Inl UnknownTag, forum)
   \<and> create accept 50 7 (body_with_tags (Some (Names [''django'', ''ghost'', ''rest'']))) forum
       = (Inl UnknownTag, forum)
   \<and> update accept author_only False 1 7 (body_with_tags (Some (Names [''django'', ''ghost'', ''rest''])))
        forum = (Inl UnknownTag, forum)
   \<and> resolve_loop forum ([''django''] @ ''ghost'' # [''rest'']) [] = Inl UnknownTag"
proof -
  have a: "d_tags (body_with_tags (Some (Names [''django'', ''ghost'', ''rest''])))
      = Some (Names [''django'', ''ghost'', ''rest''])"
    by (simp add: body_with_tags_def)
  have b: "''ghost'' \<in> set [''django'', ''ghost'', ''rest'']" by simp
  have c: "\<forall>tg. Tag_objects_get forum ''ghost'' \<noteq> Inr tg" by (simp add: forum_tag_lookup)
  have v: "accept False (body_with_tags (Some (Names [''django'', ''ghost'', ''rest''])))"
    by (simp add: accept_def)
  from unknown_tag_fails_without_name [OF a b c, of 50 7 "forum_post 1 False 10 [1]" accept
      author_only 1 False "[''django'']" "[''rest'']"]
    a v forum_get_object(1) forum_tag_lookup
  show ?thesis by simp
qed



end
